theory Spec2Isabelle
  imports Main
begin

section \<open>Go strings: bytes, runes and the library functions used by pairs.go\<close>

text \<open>
  A Go string is a sequence of bytes, here a \<open>string\<close> (a list of 8-bit \<open>char\<close>s).
  The library functions of \<^verbatim>\<open>strings\<close>, \<^verbatim>\<open>unicode/utf8\<close> and \<^verbatim>\<open>fmt\<close> that pairs.go
  calls read these bytes as UTF-8; they are modelled on bytes, with runes (code points)
  as natural numbers.
\<close>

definition byte :: "char \<Rightarrow> nat" where
  "byte c = of_char c"

definition RuneError :: nat where
  "RuneError = 0xFFFD"

definition cont :: "char \<Rightarrow> bool" where
  \<comment> \<open>a UTF-8 continuation byte, 0x80..0xBF\<close>
  "cont c = (0x80 \<le> byte c \<and> byte c \<le> 0xBF)"

text \<open>
  \<^verbatim>\<open>utf8.DecodeRuneInString\<close>: the first rune of the string and its width in bytes.
  The empty string gives (RuneError, 0), an invalid or incomplete encoding gives
  (RuneError, 1). The second byte of a 3- or 4-byte encoding is restricted as in Go's
  \<^verbatim>\<open>acceptRanges\<close> (no overlong encodings, no surrogates, nothing above U+10FFFF).
\<close>

fun decodeRune :: "string \<Rightarrow> nat \<times> nat" where
  "decodeRune [] = (RuneError, 0)"
| "decodeRune (c0 # rest) =
    (let b0 = byte c0 in
     if b0 < 0x80 then (b0, 1)
     else if b0 < 0xC2 \<or> 0xF4 < b0 then (RuneError, 1)
     else if b0 < 0xE0 then
       (case rest of
          c1 # _ \<Rightarrow>
            if cont c1 then ((b0 mod 32) * 64 + byte c1 mod 64, 2) else (RuneError, 1)
        | _ \<Rightarrow> (RuneError, 1))
     else if b0 < 0xF0 then
       (case rest of
          c1 # c2 # _ \<Rightarrow>
            if (if b0 = 0xE0 then 0xA0 else 0x80) \<le> byte c1
               \<and> byte c1 \<le> (if b0 = 0xED then 0x9F else 0xBF) \<and> cont c2
            then ((b0 mod 16) * 4096 + (byte c1 mod 64) * 64 + byte c2 mod 64, 3)
            else (RuneError, 1)
        | _ \<Rightarrow> (RuneError, 1))
     else
       (case rest of
          c1 # c2 # c3 # _ \<Rightarrow>
            if (if b0 = 0xF0 then 0x90 else 0x80) \<le> byte c1
               \<and> byte c1 \<le> (if b0 = 0xF4 then 0x8F else 0xBF) \<and> cont c2 \<and> cont c3
            then ((b0 mod 8) * 262144 + (byte c1 mod 64) * 4096
                    + (byte c2 mod 64) * 64 + byte c3 mod 64, 4)
            else (RuneError, 1)
        | _ \<Rightarrow> (RuneError, 1)))"

text \<open>
  \<^verbatim>\<open>utf8.AppendRune\<close>: the UTF-8 encoding of a rune; a surrogate or a value above
  U+10FFFF is written as U+FFFD.
\<close>

definition encodeRune :: "nat \<Rightarrow> string" where
  "encodeRune r =
    (if r < 0x80 then [char_of r]
     else if r < 0x800 then [char_of (0xC0 + r div 64), char_of (0x80 + r mod 64)]
     else if (0xD800 \<le> r \<and> r \<le> 0xDFFF) \<or> 0x10FFFF < r
       then [char_of (0xEF::nat), char_of (0xBF::nat), char_of (0xBD::nat)]
     else if r < 0x10000 then
       [char_of (0xE0 + r div 4096), char_of (0x80 + (r div 64) mod 64),
        char_of (0x80 + r mod 64)]
     else
       [char_of (0xF0 + r div 262144), char_of (0x80 + (r div 4096) mod 64),
        char_of (0x80 + (r div 64) mod 64), char_of (0x80 + r mod 64)])"

text \<open>
  \<^verbatim>\<open>utf8.RuneStart\<close> and \<^verbatim>\<open>utf8.DecodeLastRuneInString\<close>. The latter steps back from
  the last byte over at most three more bytes to a byte that can start a rune
  (\<open>backScan\<close> is its \<^verbatim>\<open>for start--; start >= lim; start--\<close> loop followed by the clamp
  of a negative \<open>start\<close> to 0), decodes forward from there, and accepts the rune only
  when it ends exactly at the end of the string.
\<close>

definition RuneStart :: "char \<Rightarrow> bool" where
  "RuneStart c = (\<not> cont c)"

function backScan :: "string \<Rightarrow> nat \<Rightarrow> nat \<Rightarrow> nat" where
  "backScan s start lim =
    (if start \<le> lim then start - 1
     else if RuneStart (s ! (start - 1)) then start - 1
     else backScan s (start - 1) lim)"
  by pat_completeness auto
termination
  by (relation "measure (\<lambda>(s, start, lim). start)") auto

declare backScan.simps [simp del]

definition decodeLastRune :: "string \<Rightarrow> nat \<times> nat" where
  "decodeLastRune s =
    (if s = [] then (RuneError, 0)
     else
       let end = length s; r = byte (s ! (end - 1)) in
       if r < 0x80 then (r, 1)
       else
         let lim = end - 4;
             start = backScan s (end - 1) lim;
             (r, size) = decodeRune (drop start s)
         in if start + size \<noteq> end then (RuneError, 1) else (r, size))"

text \<open>\<^verbatim>\<open>unicode.IsSpace\<close>: the code points with the Unicode property White_Space.\<close>

definition IsSpace :: "nat \<Rightarrow> bool" where
  "IsSpace r =
    ((0x09 \<le> r \<and> r \<le> 0x0D) \<or> r = 0x20 \<or> r = 0x85 \<or> r = 0xA0 \<or> r = 0x1680
     \<or> (0x2000 \<le> r \<and> r \<le> 0x200A) \<or> r = 0x2028 \<or> r = 0x2029 \<or> r = 0x202F
     \<or> r = 0x205F \<or> r = 0x3000)"


text \<open>
  \<^verbatim>\<open>strings.TrimLeftFunc\<close> drops leading runes while \<open>f\<close> holds; \<^verbatim>\<open>strings.TrimRightFunc\<close>
  drops trailing runes, read backwards with \<open>decodeLastRune\<close>, while \<open>f\<close> holds.
  Go finds the last rune on which \<open>f\<close> fails with \<^verbatim>\<open>lastIndexFunc\<close> and cuts the string
  after it; the recursion below stops at that same rune and keeps the string up to
  its end.
  \<^verbatim>\<open>strings.TrimSpace\<close> removes leading and trailing white space as defined by
  Unicode; its loops over ASCII bytes are a fast path of
  \<^verbatim>\<open>TrimFunc(s, unicode.IsSpace)\<close>, to which it falls back at the first non-ASCII byte.
\<close>

function TrimLeftFunc :: "(nat \<Rightarrow> bool) \<Rightarrow> string \<Rightarrow> string" where
  "TrimLeftFunc f s =
    (if s = [] then []
     else case decodeRune s of (r, w) \<Rightarrow> if f r then TrimLeftFunc f (drop w s) else s)"
  by pat_completeness auto
termination
proof -
  have pos: "0 < snd (decodeRune s)" if "s \<noteq> []" for s
    using that by (cases s) (simp_all add: Let_def split: list.split)
  show ?thesis
  proof (relation "measure (\<lambda>(f, s). length s)", goal_cases)
    case 1
    show ?case by simp
  next
    case (2 f s r w)
    then have "w = snd (decodeRune s)"
      by (metis snd_conv)
    with pos [of s] 2 show ?case
      by simp
  qed
qed

declare TrimLeftFunc.simps [simp del]

function TrimRightFunc :: "(nat \<Rightarrow> bool) \<Rightarrow> string \<Rightarrow> string" where
  "TrimRightFunc f s =
    (if s = [] then []
     else case decodeLastRune s of
            (r, w) \<Rightarrow> if f r then TrimRightFunc f (take (length s - w) s) else s)"
  by pat_completeness auto
termination
proof -
  have scan: "backScan s st lim \<le> st - 1" for s st lim
    by (induction s st lim rule: backScan.induct) (subst backScan.simps, auto)
  have pos: "0 < snd (decodeLastRune s)" if ne: "s \<noteq> []" for s
  proof (rule ccontr)
    assume "\<not> 0 < snd (decodeLastRune s)"
    then have w: "snd (decodeLastRune s) = 0" by simp
    let ?start = "backScan s (length s - 1) (length s - 4)"
    from ne w have "snd (decodeRune (drop ?start s)) = 0"
      and "?start + snd (decodeRune (drop ?start s)) = length s"
      by (auto simp: decodeLastRune_def Let_def split: if_splits prod.splits)
    then have "?start = length s"
      by simp
    moreover have "?start \<le> (length s - 1) - 1"
      by (rule scan)
    ultimately show False
      using ne by (cases s) auto
  qed
  show ?thesis
  proof (relation "measure (\<lambda>(f, s). length s)", goal_cases)
    case 1
    show ?case by simp
  next
    case (2 f s r w)
    then have "w = snd (decodeLastRune s)"
      by (metis snd_conv)
    with pos [of s] 2 show ?case
      by simp
  qed
qed

declare TrimRightFunc.simps [simp del]

definition TrimFunc :: "(nat \<Rightarrow> bool) \<Rightarrow> string \<Rightarrow> string" where
  "TrimFunc f s = TrimRightFunc f (TrimLeftFunc f s)"

definition TrimSpace :: "string \<Rightarrow> string" where
  "TrimSpace s = TrimFunc IsSpace s"

text \<open>
  \<^verbatim>\<open>strings.Map\<close> decodes the string rune by rune (an invalid byte reads as U+FFFD),
  applies the mapping and writes the encoding of each result. \<^verbatim>\<open>unicode.ToLower\<close>
  never returns a negative rune, so no rune is dropped.
\<close>

function Map :: "(nat \<Rightarrow> nat) \<Rightarrow> string \<Rightarrow> string" where
  "Map mapping s =
    (if s = [] then []
     else case decodeRune s of (c, width) \<Rightarrow> encodeRune (mapping c) @ Map mapping (drop width s))"
  by pat_completeness auto
termination
proof -
  have pos: "0 < snd (decodeRune s)" if "s \<noteq> []" for s
    using that by (cases s) (simp_all add: Let_def split: list.split)
  show ?thesis
  proof (relation "measure (\<lambda>(f, s). length s)", goal_cases)
    case 1
    show ?case by simp
  next
    case (2 f s r w)
    then have "w = snd (decodeRune s)"
      by (metis snd_conv)
    with pos [of s] 2 show ?case
      by simp
  qed
qed

declare Map.simps [simp del]

text \<open>
  \<^verbatim>\<open>unicode.ToLower\<close> on a rune. ASCII and Latin-1 are written out: A..Z, and the
  capital letters U+00C0..U+00DE except the multiplication sign U+00D7, move up by 32.
  Go reads every other rune's lower case from the Unicode case tables of the \<^verbatim>\<open>unicode\<close>
  package; these are the parameter \<open>caseTable\<close>.
\<close>

definition unicode_ToLower :: "(nat \<Rightarrow> nat) \<Rightarrow> nat \<Rightarrow> nat" where
  "unicode_ToLower caseTable r =
    (if r < 0x80 then (if 0x41 \<le> r \<and> r \<le> 0x5A then r + 32 else r)
     else if r < 0x100 then (if 0xC0 \<le> r \<and> r \<le> 0xDE \<and> r \<noteq> 0xD7 then r + 32 else r)
     else caseTable r)"

text \<open>
  \<^verbatim>\<open>strings.ToLower\<close>: a string of ASCII bytes only is lowered byte by byte; any
  other string goes through \<^verbatim>\<open>Map(unicode.ToLower, s)\<close>.
\<close>

definition ToLower :: "(nat \<Rightarrow> nat) \<Rightarrow> string \<Rightarrow> string" where
  "ToLower caseTable s =
    (if list_all (\<lambda>c. byte c < 0x80) s
     then map (\<lambda>c. if 0x41 \<le> byte c \<and> byte c \<le> 0x5A then char_of (byte c + 32) else c) s
     else Map (unicode_ToLower caseTable) s)"

text \<open>
  \<^verbatim>\<open>strings.SplitN(s, sep, n)\<close> for a separator of one byte: at most \<open>n\<close> substrings, the
  last one the unsplit remainder. pairs.go calls it with \<open>n = 2\<close>.
\<close>

fun SplitN :: "string \<Rightarrow> char \<Rightarrow> nat \<Rightarrow> string list" where
  "SplitN s sep 0 = []"
| "SplitN s sep (Suc 0) = [s]"
| "SplitN s sep (Suc (Suc n)) =
    (if sep \<in> set s
     then takeWhile (\<lambda>c. c \<noteq> sep) s # SplitN (tl (dropWhile (\<lambda>c. c \<noteq> sep) s)) sep (Suc n)
     else [s])"

text \<open>
  The verb \<^verbatim>\<open>%c\<close> of \<^verbatim>\<open>fmt.Sprintf\<close> applied to a byte: the byte's value is taken as a
  code point and written in UTF-8.
\<close>

definition fmt_c :: "char \<Rightarrow> string" where
  "fmt_c b = encodeRune (byte b)"

section \<open>Outcomes of a Go call\<close>

text \<open>
  A call either returns its results or panics (an index out of range). An indexing
  expression \<^verbatim>\<open>xs[i]\<close> is \<open>index xs i\<close>.
\<close>

datatype 'a outcome = Return 'a | Panic

fun obind :: "'a outcome \<Rightarrow> ('a \<Rightarrow> 'b outcome) \<Rightarrow> 'b outcome" where
  "obind Panic f = Panic"
| "obind (Return x) f = f x"

definition index :: "'a list \<Rightarrow> nat \<Rightarrow> 'a outcome" where
  "index xs i = (if i < length xs then Return (xs ! i) else Panic)"

section \<open>The data of pairs.go\<close>

text \<open>
  \<^verbatim>\<open>Pair\<close>, \<^verbatim>\<open>emailConfig\<close>, \<^verbatim>\<open>pairsFile\<close> and \<^verbatim>\<open>Pairs\<close>, field by field. The field
  \<^verbatim>\<open>Email\<close> of \<^verbatim>\<open>pairsFile\<close> is \<open>EmailSection\<close> here, since \<open>Email\<close> is already the field
  of \<open>Pair\<close>. A Go map is a partial function.
\<close>

record Pair =
  Name :: string
  Email :: string
  Initials :: string
  Username :: string

record emailConfig =
  Prefix :: string
  Domain :: string

record pairsFile =
  Pairs :: "string \<rightharpoonup> string"
  EmailSection :: emailConfig
  EmailAddresses :: "string \<rightharpoonup> string"
  EmailTemplate :: string

record Pairs =
  "file" :: pairsFile
  emailLookup :: string

text \<open>
  Go's \<^verbatim>\<open>error\<close> values, by where pairs.go gets them: \<open>Errorf\<close> is made by
  \<^verbatim>\<open>fmt.Errorf\<close> and carries the formatted message, the others come from \<^verbatim>\<open>os\<close> and
  \<^verbatim>\<open>ioutil\<close>, from \<^verbatim>\<open>exec.Cmd.Run\<close> and from \<^verbatim>\<open>text/template\<close>, each with its cause.
\<close>

datatype error =
  Errorf string
  | OsError string
  | ExecError string
  | TemplateError string

definition UnknownInitials :: "string \<Rightarrow> error" where
  \<comment> \<open>\<^verbatim>\<open>fmt.Errorf("unknown initials %s", initials)\<close>\<close>
  "UnknownInitials initials = Errorf (''unknown initials '' @ initials)"

fun ResolutionFailure :: "error \<Rightarrow> bool" where
  "ResolutionFailure (ExecError cause) = True"
| "ResolutionFailure (TemplateError cause) = True"
| "ResolutionFailure _ = False"

text \<open>
  What pairs.go calls outside itself and outside the pure string functions above.
  \<open>'w\<close> is the state of the machine at the time of a call (file system, programs
  installed, whatever a child process may read); \<open>'f\<close> is an open file and \<open>'t\<close> a
  parsed template.
  \<^item> \<open>exec_Run w cmd args\<close>: \<^verbatim>\<open>exec.Command(cmd, args...)\<close> run with its standard output
    captured; \<open>Inl\<close> when \<^verbatim>\<open>cmd.Run()\<close> returns an error (the program cannot be started or
    exits non-zero), else \<open>Inr\<close> the captured output.
  \<^item> \<open>template_Parse\<close> and \<open>template_Execute\<close>:
    \<^verbatim>\<open>template.New("email").Funcs(templateFuncs).Parse\<close> and \<^verbatim>\<open>t.Execute\<close>.
  \<^item> \<open>os_Open\<close> and \<open>ioutil_ReadAll\<close>: \<^verbatim>\<open>os.Open\<close> and \<^verbatim>\<open>ioutil.ReadAll\<close>.
  \<^item> \<open>yaml_Unmarshal\<close>: \<^verbatim>\<open>yaml.Unmarshal\<close> into an empty \<^verbatim>\<open>pairsFile\<close>.
  \<^item> \<open>caseTable\<close>: the Unicode case tables beyond Latin-1.
\<close>

record ('w, 'f, 't) host =
  exec_Run :: "'w \<Rightarrow> string \<Rightarrow> string list \<Rightarrow> string + string"
  template_Parse :: "string \<Rightarrow> string + 't"
  template_Execute :: "'t \<Rightarrow> Pair \<Rightarrow> string + string"
  os_Open :: "'w \<Rightarrow> string \<Rightarrow> string + 'f"
  ioutil_ReadAll :: "'w \<Rightarrow> 'f \<Rightarrow> string + string"
  yaml_Unmarshal :: "string \<Rightarrow> string + pairsFile"
  caseTable :: "nat \<Rightarrow> nat"

section \<open>NewPairsFromFile\<close>

text \<open>
  \<^verbatim>\<open>pairsKey.ReplaceAll(contents, repl)\<close> for \<^verbatim>\<open>pairsKey = (?m)^pairs:\<close>. With the flag
  \<^verbatim>\<open>m\<close>, \<^verbatim>\<open>^\<close> matches at the start of the text and after each line feed; \<open>bol\<close> says
  whether the scan is at such a position. The replacement has no \<^verbatim>\<open>$\<close>, so it is
  copied as it is.
\<close>

fun pairsKey_ReplaceAll_from :: "bool \<Rightarrow> string \<Rightarrow> string \<Rightarrow> string" where
  "pairsKey_ReplaceAll_from bol [] repl = []"
| "pairsKey_ReplaceAll_from bol (c # cs) repl =
    (if bol \<and> take 6 (c # cs) = ''pairs:''
     then repl @ pairsKey_ReplaceAll_from False (drop 5 cs) repl
     else c # pairsKey_ReplaceAll_from (c = CHR 0x0A) cs repl)"

definition pairsKey_ReplaceAll :: "string \<Rightarrow> string \<Rightarrow> string" where
  "pairsKey_ReplaceAll contents repl = pairsKey_ReplaceAll_from True contents repl"

definition NewPairsFromFile ::
  "('w, 'f, 't) host \<Rightarrow> 'w \<Rightarrow> string \<Rightarrow> string \<Rightarrow> Pairs option \<times> error option" where
  "NewPairsFromFile h w filename emailLookup' =
    (case os_Open h w filename of
       Inl err \<Rightarrow> (None, Some (OsError err))
     | Inr opened \<Rightarrow>
         (case ioutil_ReadAll h w opened of
            Inl err \<Rightarrow> (None, Some (OsError err))
          | Inr contents \<Rightarrow>
              let contents = pairsKey_ReplaceAll contents ''authors:'' in
              (case yaml_Unmarshal h contents of
                 Inl err \<Rightarrow>
                   (None, Some (Errorf (''could not parse '' @ filename @ '': '' @ err)))
               | Inr af \<Rightarrow> (Some \<lparr>file = af, emailLookup = emailLookup'\<rparr>, None))))"

section \<open>buildEmail and ByInitials\<close>

text \<open>
  \<open>buildEmail_chain\<close> is lines 99 to 129 of \<^verbatim>\<open>buildEmail\<close>: what runs when no lookup
  command is set or the command printed nothing. The results are Go's pair
  \<^verbatim>\<open>(email string, err error)\<close>, with \<open>None\<close> for a nil error.
\<close>

definition buildEmail_chain ::
  "('w, 'f, 't) host \<Rightarrow> Pairs \<Rightarrow> string \<Rightarrow> string \<Rightarrow> string \<Rightarrow> (string \<times> error option) outcome" where
  "buildEmail_chain h a initials name username =
    (case EmailAddresses (file a) initials of
       Some e \<Rightarrow> Return (e, None)
     | None \<Rightarrow>
         if EmailTemplate (file a) \<noteq> [] then
           (case template_Parse h (EmailTemplate (file a)) of
              Inl err \<Rightarrow> Return ([], Some (TemplateError err))
            | Inr t \<Rightarrow>
                (case template_Execute h t
                        \<lparr>Name = name, Email = [], Initials = initials, Username = username\<rparr> of
                   Inl err \<Rightarrow> Return ([], Some (TemplateError err))
                 | Inr out \<Rightarrow> Return (out, None)))
         else if username \<noteq> [] then
           Return (TrimSpace username @ ''@'' @ Domain (EmailSection (file a)), None)
         else
           (let names = SplitN name CHR '' '' 2 in
            if length names = 2 then
              obind (index names 0) (\<lambda>names0.
              obind (index (ToLower (caseTable h) (TrimSpace names0)) 0) (\<lambda>c.
              obind (index names 1) (\<lambda>names1.
                Return (fmt_c c @ ''.'' @ ToLower (caseTable h) (TrimSpace names1)
                          @ ''@'' @ Domain (EmailSection (file a)), None))))
            else
              obind (index names 0) (\<lambda>names0.
                Return (ToLower (caseTable h) (TrimSpace names0)
                          @ ''@'' @ Domain (EmailSection (file a)), None))))"

definition buildEmail ::
  "('w, 'f, 't) host \<Rightarrow> 'w \<Rightarrow> Pairs \<Rightarrow> string \<Rightarrow> string \<Rightarrow> string
     \<Rightarrow> (string \<times> error option) outcome" where
  "buildEmail h w a initials name username =
    (if emailLookup a \<noteq> [] then
       (case exec_Run h w (emailLookup a) [initials, name, username] of
          Inl err \<Rightarrow> Return ([], Some (ExecError err))
        | Inr out \<Rightarrow>
            let email = TrimSpace out in
            if email \<noteq> [] then Return (email, None)
            else buildEmail_chain h a initials name username)
     else buildEmail_chain h a initials name username)"

text \<open>
  \<^verbatim>\<open>ByInitials\<close> returns Go's pair \<^verbatim>\<open>(pair *Pair, err error)\<close>: \<open>None\<close> is nil.
\<close>

definition ByInitials ::
  "('w, 'f, 't) host \<Rightarrow> 'w \<Rightarrow> Pairs \<Rightarrow> string \<Rightarrow> (Pair option \<times> error option) outcome" where
  "ByInitials h w a initials =
    (case Pairs (file a) initials of
       None \<Rightarrow> Return (None, Some (Errorf (''unknown initials '' @ initials)))
     | Some pairString \<Rightarrow>
         let pairParts = SplitN pairString CHR '';'' 2 in
         obind (index pairParts 0) (\<lambda>pairParts0.
         let name = TrimSpace pairParts0 in
         obind (if length pairParts = 2
                then obind (index pairParts 1) (\<lambda>pairParts1. Return (TrimSpace pairParts1))
                else Return []) (\<lambda>username.
         obind (buildEmail h w a initials name username) (\<lambda>(email, err).
           case err of
             Some e \<Rightarrow> Return (None, Some e)
           | None \<Rightarrow>
               Return (Some \<lparr>Name = name, Email = email, Initials = initials,
                             Username = username\<rparr>, None)))))"

text \<open>
  Lines 146 to 151 of \<^verbatim>\<open>ByInitials\<close> as functions of the authors entry: the name and the
  username that \<^verbatim>\<open>ByInitials\<close> passes to \<^verbatim>\<open>buildEmail\<close> (\<open>ByInitials_found\<close> below shows
  that its indexing never leaves the slice, so that \<open>!\<close> is the indexing of the source).
\<close>

definition pairName :: "string \<Rightarrow> string" where
  "pairName pairString = TrimSpace (SplitN pairString CHR '';'' 2 ! 0)"

definition pairUsername :: "string \<Rightarrow> string" where
  "pairUsername pairString =
    (let pairParts = SplitN pairString CHR '';'' 2 in
     if length pairParts = 2 then TrimSpace (pairParts ! 1) else [])"

text \<open>
  \<open>noLookupResult\<close>: the lookup block of \<^verbatim>\<open>buildEmail\<close> (lines 83 to 97) neither returns
  an error nor an email, so that control reaches line 99: no command is set, or the
  command ran and printed nothing but white space.
\<close>

definition noLookupResult ::
  "('w, 'f, 't) host \<Rightarrow> 'w \<Rightarrow> Pairs \<Rightarrow> string \<Rightarrow> string \<Rightarrow> string \<Rightarrow> bool" where
  "noLookupResult h w a initials name username =
    (emailLookup a = [] \<or>
     (case exec_Run h w (emailLookup a) [initials, name, username] of
        Inl err \<Rightarrow> False
      | Inr out \<Rightarrow> TrimSpace out = []))"

section \<open>A host and an authors file for the examples\<close>

text \<open>
  A small machine on which the theorems below are run. Its state is the text of the
  authors file. Three programs are installed: \<^verbatim>\<open>fail\<close> exits non-zero, \<^verbatim>\<open>silent\<close> prints
  a line feed, \<^verbatim>\<open>ldap\<close> prints an address made of its first argument. A template is
  kept as its text; \<^verbatim>\<open>{{\<close> does not parse, \<^verbatim>\<open>{{.Missing}}\<close> parses and fails to
  render, \<^verbatim>\<open>{{.Initials}}@corp.example\<close> renders. The YAML parser knows one document.
\<close>

definition exampleFile :: pairsFile where
  "exampleFile =
    \<lparr>Pairs = [''AB'' \<mapsto> ''Alice Brown'', ''CD'' \<mapsto> ''Cher'', ''EF'' \<mapsto> ''Eve Foo; efoo'',
              ''GH'' \<mapsto> ''Grace Hopper''],
     EmailSection = \<lparr>Prefix = ''pair'', Domain = ''example.com''\<rparr>,
     EmailAddresses = [''GH'' \<mapsto> ''grace@navy.mil''],
     EmailTemplate = []\<rparr>"

definition examplePairs :: "string \<Rightarrow> Pairs" where
  "examplePairs cmd = \<lparr>file = exampleFile, emailLookup = cmd\<rparr>"

definition exampleHost :: "(string, unit, string) host" where
  "exampleHost =
    \<lparr>exec_Run = (\<lambda>w cmd args.
        if cmd = ''fail'' then Inl ''exit status 1''
        else if cmd = ''silent'' then Inr [CHR 0x0A]
        else if cmd = ''ldap'' then Inr (hd args @ ''@corp.example'' @ [CHR 0x0A])
        else Inl ''executable file not found in $PATH''),
     template_Parse = (\<lambda>text. if text = ''{{'' then Inl ''unclosed action'' else Inr text),
     template_Execute = (\<lambda>t p.
        if t = ''{{.Missing}}'' then Inl ''cannot evaluate field Missing''
        else if t = ''{{.Initials}}@corp.example'' then Inr (Initials p @ ''@corp.example'')
        else Inr t),
     os_Open = (\<lambda>w filename.
        if filename = ''.git-authors'' then Inr () else Inl ''no such file or directory''),
     ioutil_ReadAll = (\<lambda>w opened. Inr w),
     yaml_Unmarshal = (\<lambda>text.
        if text = ''authors:'' @ [CHR 0x0A] @ ''  CD: Cher'' @ [CHR 0x0A]
        then Inr (exampleFile\<lparr>Pairs := [''CD'' \<mapsto> ''Cher''], EmailAddresses := Map.empty\<rparr>)
        else Inl ''yaml: unmarshal errors''),
     caseTable = (\<lambda>r. r)\<rparr>"

text \<open>
  Two more authors files. In \<open>emptyOverridePairs\<close> the override map gives \<^verbatim>\<open>AB\<close> the empty
  address (\<^verbatim>\<open>email_addresses: {AB: ""}\<close>). In \<open>accentedPairs\<close> the one entry is
  \<^verbatim>\<open>EZ\<close> with the name Emile Zola, its first letter written with the acute accent: the
  letter U+00C9, which is the two bytes C3 89 in UTF-8.
\<close>

definition emptyOverridePairs :: Pairs where
  "emptyOverridePairs =
    \<lparr>file = exampleFile\<lparr>EmailAddresses := [''AB'' \<mapsto> []]\<rparr>, emailLookup = []\<rparr>"

definition accentedPairs :: Pairs where
  "accentedPairs =
    \<lparr>file = exampleFile\<lparr>Pairs := [''EZ'' \<mapsto> [CHR 0xC3, CHR 0x89] @ ''mile Zola'']\<rparr>,
     emailLookup = []\<rparr>"

section \<open>The name-derived address, as the specification words it\<close>

text \<open>
  The specification gives the address of the name-derived strategy as: split the name
  at its first space into at most two tokens; with two tokens, the first character of
  the lower-cased first token, a dot, the lower-cased trimmed second token, \<^verbatim>\<open>@\<close> and
  the domain; with one token, the lower-cased trimmed token, \<^verbatim>\<open>@\<close> and the domain.
  \<open>spec_nameDerived\<close> follows these words. The first character of a string is the bytes
  of its first rune.
\<close>

definition firstChar :: "string \<Rightarrow> string" where
  "firstChar s = take (snd (decodeRune s)) s"

definition spec_nameDerived :: "(nat \<Rightarrow> nat) \<Rightarrow> string \<Rightarrow> string \<Rightarrow> string" where
  "spec_nameDerived table name domain =
    (case SplitN name CHR '' '' 2 of
       [firstToken, secondToken] \<Rightarrow>
         firstChar (ToLower table firstToken) @ ''.'' @ ToLower table (TrimSpace secondToken)
           @ ''@'' @ domain
     | _ \<Rightarrow> ToLower table (TrimSpace name) @ ''@'' @ domain)"

section \<open>The rewrite of the legacy key, as the specification words it\<close>

text \<open>
  The specification describes the rewrite of \<^verbatim>\<open>pairs:\<close> as a line-anchored match on the
  key token. \<open>spec_rewrite\<close> follows these words: the text is cut into lines at each
  line feed, a line that begins with \<^verbatim>\<open>pairs:\<close> gets \<open>repl\<close> in place of these six
  bytes, every other line stays, and the lines are joined again.
\<close>

function lines_of :: "string \<Rightarrow> string list" where
  "lines_of s =
    (if CHR 0x0A \<in> set s
     then takeWhile (\<lambda>c. c \<noteq> CHR 0x0A) s # lines_of (tl (dropWhile (\<lambda>c. c \<noteq> CHR 0x0A) s))
     else [s])"
  by pat_completeness auto
termination
proof (relation "measure length", goal_cases)
  case 1
  show ?case by simp
next
  case (2 s)
  then have "dropWhile (\<lambda>c. c \<noteq> CHR 0x0A) s \<noteq> []"
    by simp
  then have "length (tl (dropWhile (\<lambda>c. c \<noteq> CHR 0x0A) s))
      < length (dropWhile (\<lambda>c. c \<noteq> CHR 0x0A) s)"
    by (cases "dropWhile (\<lambda>c. c \<noteq> CHR 0x0A) s") simp_all
  also have "\<dots> \<le> length s"
    by (rule length_dropWhile_le)
  finally show ?case by simp
qed

declare lines_of.simps [simp del]

fun unlines_of :: "string list \<Rightarrow> string" where
  "unlines_of [] = []"
| "unlines_of [l] = l"
| "unlines_of (l # ls) = l @ CHR 0x0A # unlines_of ls"

definition rewriteLine :: "string \<Rightarrow> string \<Rightarrow> string" where
  "rewriteLine repl l = (if take 6 l = ''pairs:'' then repl @ drop 6 l else l)"

definition spec_rewrite :: "string \<Rightarrow> string \<Rightarrow> string" where
  "spec_rewrite contents repl = unlines_of (map (rewriteLine repl) (lines_of contents))"

section \<open>Properties of the string functions\<close>

subsection \<open>Decoding runes\<close>

lemma decodeRune_width_pos: "s \<noteq> [] \<Longrightarrow> 0 < snd (decodeRune s)"
  by (cases s) (simp_all add: Let_def split: list.split)

lemma not_IsSpace_RuneError: "\<not> IsSpace RuneError"
  by (simp add: IsSpace_def RuneError_def)

lemma decodeRune_single: "decodeRune [c] = (if byte c < 0x80 then (byte c, 1) else (RuneError, 1))"
  by (simp add: Let_def)

lemma decodeRune_prefix:
  assumes "p \<noteq> []"
  shows "decodeRune p = decodeRune (p @ q) \<or> decodeRune p = (RuneError, 1)"
proof -
  from assms obtain c0 p1 where p: "p = c0 # p1"
    by (cases p) auto
  show ?thesis
  proof (cases p1)
    case Nil
    with p show ?thesis by (simp add: Let_def)
  next
    case (Cons c1 p2)
    note p1 = this
    show ?thesis
    proof (cases p2)
      case Nil
      with p p1 show ?thesis by (simp add: Let_def)
    next
      case (Cons c2 p3)
      note p2 = this
      show ?thesis
      proof (cases p3)
        case Nil
        with p p1 p2 show ?thesis by (simp add: Let_def)
      next
        case (Cons c3 p4)
        with p p1 p2 show ?thesis by (simp add: Let_def)
      qed
    qed
  qed
qed

lemma backScan_le: "backScan s st lim \<le> st - 1"
  by (induction s st lim rule: backScan.induct) (subst backScan.simps, auto)

lemma decodeLastRune_cases:
  assumes "s \<noteq> []" and "decodeLastRune s = (r, w)"
  shows "0 < w \<and> w \<le> length s \<and> (r = RuneError \<or> decodeRune (drop (length s - w) s) = (r, w))"
proof (cases "byte (s ! (length s - 1)) < 0x80")
  case True
  with assms have rw: "r = byte (s ! (length s - 1))" "w = 1"
    by (auto simp add: decodeLastRune_def Let_def)
  from assms(1) have "drop (length s - 1) s = [s ! (length s - 1)]"
    by (metis append_butlast_last_id append_eq_conv_conj last_conv_nth length_butlast)
  with True rw assms(1) show ?thesis
    by (cases s) (simp_all add: Let_def)
next
  case False
  let ?start = "backScan s (length s - 1) (length s - 4)"
  obtain r' w' where d: "decodeRune (drop ?start s) = (r', w')"
    by (cases "decodeRune (drop ?start s)") auto
  have lt: "?start < length s"
    using backScan_le [of s "length s - 1" "length s - 4"] assms(1)
    by (cases s) auto
  then have "drop ?start s \<noteq> []" by simp
  from decodeRune_width_pos [OF this] d have w': "0 < w'" by simp
  show ?thesis
  proof (cases "?start + w' = length s")
    case True
    with False assms d have "r = r'" "w = w'"
      by (simp_all add: decodeLastRune_def Let_def)
    moreover from True have "length s - w' = ?start"
      by simp
    ultimately show ?thesis
      using True d w' by simp
  next
    case ne: False
    with False assms d have "r = RuneError" "w = 1"
      by (simp_all add: decodeLastRune_def Let_def)
    with assms(1) show ?thesis by (cases s) auto
  qed
qed

subsection \<open>Trimming, lower case and splitting\<close>

lemma TrimLeftFunc_Nil: "TrimLeftFunc f [] = []"
  by (simp add: TrimLeftFunc.simps)

lemma TrimRightFunc_Nil: "TrimRightFunc f [] = []"
  by (simp add: TrimRightFunc.simps)

lemma TrimLeftFunc_keep:
  "s \<noteq> [] \<Longrightarrow> \<not> f (fst (decodeRune s)) \<Longrightarrow> TrimLeftFunc f s = s"
  by (subst TrimLeftFunc.simps) (auto split: prod.split)

lemma TrimLeftFunc_first:
  "TrimLeftFunc f s \<noteq> [] \<Longrightarrow> \<not> f (fst (decodeRune (TrimLeftFunc f s)))"
proof (induction f s rule: TrimLeftFunc.induct)
  case (1 f s)
  obtain r w where d: "decodeRune s = (r, w)"
    by (cases "decodeRune s") auto
  from "1.prems" have ne: "s \<noteq> []"
    by (auto simp: TrimLeftFunc_Nil)
  show ?case
  proof (cases "f r")
    case True
    with ne d have eq: "TrimLeftFunc f s = TrimLeftFunc f (drop w s)"
      by (subst TrimLeftFunc.simps) simp
    with "1.IH" [OF ne d [symmetric] True] "1.prems" show ?thesis
      by simp
  next
    case False
    with ne d have "TrimLeftFunc f s = s"
      by (simp add: TrimLeftFunc_keep)
    with False d show ?thesis by simp
  qed
qed

lemma TrimRightFunc_first:
  "\<not> f RuneError \<Longrightarrow> s \<noteq> [] \<Longrightarrow> \<not> f (fst (decodeRune s)) \<Longrightarrow>
    TrimRightFunc f s \<noteq> [] \<and> \<not> f (fst (decodeRune (TrimRightFunc f s)))"
proof (induction f s rule: TrimRightFunc.induct)
  case (1 f s)
  note err = \<open>\<not> f RuneError\<close> and ne = \<open>s \<noteq> []\<close> and first = \<open>\<not> f (fst (decodeRune s))\<close>
  obtain r w where d: "decodeLastRune s = (r, w)"
    by (cases "decodeLastRune s") auto
  show ?case
  proof (cases "f r")
    case False
    with ne d have "TrimRightFunc f s = s"
      by (subst TrimRightFunc.simps) simp
    with ne first show ?thesis by simp
  next
    case True
    let ?s' = "take (length s - w) s"
    from True ne d have eq: "TrimRightFunc f s = TrimRightFunc f ?s'"
      by (subst TrimRightFunc.simps) simp
    from decodeLastRune_cases [OF ne d]
    have w: "0 < w" "w \<le> length s"
      and r: "r = RuneError \<or> decodeRune (drop (length s - w) s) = (r, w)"
      by simp_all
    from True err have "r \<noteq> RuneError"
      by auto
    with r have last: "decodeRune (drop (length s - w) s) = (r, w)"
      by simp
    have "w \<noteq> length s"
    proof
      assume "w = length s"
      with last have "decodeRune s = (r, w)" by simp
      with True first show False by simp
    qed
    with w have ne': "?s' \<noteq> []"
      using ne by simp
    from decodeRune_prefix [OF ne', of "drop (length s - w) s"]
    have "decodeRune ?s' = decodeRune s \<or> decodeRune ?s' = (RuneError, 1)"
      by simp
    with first err have first': "\<not> f (fst (decodeRune ?s'))"
      by auto
    from "1.IH" [OF ne d [symmetric] True err ne' first'] eq show ?thesis
      by simp
  qed
qed

lemma TrimSpace_Nil: "TrimSpace [] = []"
  by (simp add: TrimSpace_def TrimFunc_def TrimLeftFunc_Nil TrimRightFunc_Nil)

lemma TrimSpace_first:
  assumes "TrimSpace s \<noteq> []"
  shows "\<not> IsSpace (fst (decodeRune (TrimSpace s)))"
proof -
  from assms have "TrimLeftFunc IsSpace s \<noteq> []"
    by (auto simp: TrimSpace_def TrimFunc_def TrimRightFunc_Nil)
  from TrimRightFunc_first [OF not_IsSpace_RuneError this TrimLeftFunc_first [OF this]]
  show ?thesis
    by (simp add: TrimSpace_def TrimFunc_def)
qed

lemma TrimSpace_nonempty:
  assumes "s \<noteq> []" and "\<not> IsSpace (fst (decodeRune s))"
  shows "TrimSpace s \<noteq> []"
  using TrimRightFunc_first [OF not_IsSpace_RuneError assms]
    TrimLeftFunc_keep [of s IsSpace, OF assms]
  by (simp add: TrimSpace_def TrimFunc_def)

lemma encodeRune_nonempty: "encodeRune r \<noteq> []"
  by (simp add: encodeRune_def)

lemma ToLower_nonempty:
  assumes "s \<noteq> []"
  shows "ToLower tbl s \<noteq> []"
proof (cases "list_all (\<lambda>c. byte c < 0x80) s")
  case True
  with assms show ?thesis by (simp add: ToLower_def)
next
  case False
  obtain c width where "decodeRune s = (c, width)"
    by (cases "decodeRune s") auto
  with assms have "Map (unicode_ToLower tbl) s
      = encodeRune (unicode_ToLower tbl c) @ Map (unicode_ToLower tbl) (drop width s)"
    by (subst Map.simps) simp
  with False show ?thesis
    by (simp add: ToLower_def encodeRune_nonempty)
qed

lemma SplitN_2: "SplitN s sep 2 =
  (if sep \<in> set s then [takeWhile (\<lambda>c. c \<noteq> sep) s, tl (dropWhile (\<lambda>c. c \<noteq> sep) s)] else [s])"
  by (simp add: numeral_2_eq_2)

lemma first_token_trims_nonempty:
  assumes "CHR '' '' \<in> set (TrimSpace p)"
  shows "TrimSpace (takeWhile (\<lambda>c. c \<noteq> CHR '' '') (TrimSpace p)) \<noteq> []"
proof -
  let ?name = "TrimSpace p" and ?tok = "takeWhile (\<lambda>c. c \<noteq> CHR '' '') (TrimSpace p)"
  from assms have ne: "?name \<noteq> []" by auto
  from TrimSpace_first [OF ne] have first: "\<not> IsSpace (fst (decodeRune ?name))" .
  from ne obtain c cs where name: "?name = c # cs"
    by (cases ?name) auto
  have "c \<noteq> CHR '' ''"
  proof
    assume "c = CHR '' ''"
    with name have "decodeRune ?name = (0x20, 1)"
      by (simp add: Let_def byte_def)
    with first show False by (simp add: IsSpace_def)
  qed
  with name have tok: "?tok \<noteq> []" by simp
  from decodeRune_prefix [OF tok, of "dropWhile (\<lambda>c. c \<noteq> CHR '' '') ?name"]
  have "decodeRune ?tok = decodeRune ?name \<or> decodeRune ?tok = (RuneError, 1)"
    by simp
  with first not_IsSpace_RuneError have "\<not> IsSpace (fst (decodeRune ?tok))"
    by auto
  from TrimSpace_nonempty [OF tok this] show ?thesis .
qed

subsection \<open>ASCII strings\<close>

lemma char_of_nat_eq_iff: "char_of (n::nat) = c \<longleftrightarrow> n mod 256 = of_char c"
proof
  assume "char_of n = c"
  then have "of_char (char_of n) = (of_char c :: nat)" by simp
  then show "n mod 256 = of_char c" by simp
next
  assume "n mod 256 = of_char c"
  then have "char_of (n mod 256) = char_of (of_char c :: nat)" by simp
  then show "char_of n = c" by simp
qed

lemma decodeRune_ascii: "byte c < 0x80 \<Longrightarrow> decodeRune (c # cs) = (byte c, 1)"
  by (simp add: Let_def)

lemma decodeLastRune_ascii:
  "byte c < 0x80 \<Longrightarrow> decodeLastRune (s @ [c]) = (byte c, 1)"
  by (simp add: decodeLastRune_def Let_def)

lemma TrimLeftFunc_ascii:
  "byte c < 0x80 \<Longrightarrow>
    TrimLeftFunc IsSpace (c # s) = (if IsSpace (byte c) then TrimLeftFunc IsSpace s else c # s)"
  by (subst TrimLeftFunc.simps) (simp add: decodeRune_ascii)

lemma TrimRightFunc_ascii:
  assumes "s \<noteq> []" and "byte (last s) < 0x80"
  shows "TrimRightFunc IsSpace s =
    (if IsSpace (byte (last s)) then TrimRightFunc IsSpace (butlast s) else s)"
proof -
  from assms(1) have s: "s = butlast s @ [last s]" by simp
  from assms(2) have "decodeLastRune (butlast s @ [last s]) = (byte (last s), 1)"
    by (rule decodeLastRune_ascii)
  with s have "decodeLastRune s = (byte (last s), 1)" by simp
  with assms(1) show ?thesis
    by (subst TrimRightFunc.simps) (simp add: butlast_conv_take)
qed

lemmas ascii_eval =
  TrimSpace_def TrimFunc_def TrimLeftFunc_Nil TrimRightFunc_Nil TrimLeftFunc_ascii
  TrimRightFunc_ascii ToLower_def fmt_c_def encodeRune_def SplitN_2 byte_def IsSpace_def
  char_of_nat_eq_iff

section \<open>Properties of buildEmail and ByInitials\<close>

lemma SplitN_2_length: "length (SplitN s sep 2) = (if sep \<in> set s then 2 else 1)"
  by (simp add: SplitN_2)

lemma index_0: "xs \<noteq> [] \<Longrightarrow> index xs 0 = Return (xs ! 0)"
  by (simp add: index_def)

lemma index_in: "i < length xs \<Longrightarrow> index xs i = Return (xs ! i)"
  by (simp add: index_def)

lemma buildEmail_chain_no_panic:
  "buildEmail_chain h a initials (TrimSpace p) username \<noteq> Panic"
proof -
  let ?name = "TrimSpace p"
  show ?thesis
  proof (cases "CHR '' '' \<in> set ?name")
    case True
    from first_token_trims_nonempty [OF True]
    have "ToLower (caseTable h) (TrimSpace (takeWhile (\<lambda>c. c \<noteq> CHR '' '') ?name)) \<noteq> []"
      by (rule ToLower_nonempty)
    with True show ?thesis
      by (simp add: buildEmail_chain_def SplitN_2 index_def Let_def
               split: option.split sum.split)
  next
    case False
    then show ?thesis
      by (simp add: buildEmail_chain_def SplitN_2 index_def Let_def
               split: option.split sum.split)
  qed
qed

lemma buildEmail_no_panic:
  "buildEmail h w a initials (TrimSpace p) username \<noteq> Panic"
  by (simp add: buildEmail_def buildEmail_chain_no_panic Let_def split: sum.split)

lemma takeWhile_absent: "sep \<notin> set s \<Longrightarrow> takeWhile (\<lambda>c. c \<noteq> sep) s = s"
  by (induction s) auto

lemma pairName_eq: "pairName v = TrimSpace (takeWhile (\<lambda>c. c \<noteq> CHR '';'') v)"
  by (simp add: pairName_def SplitN_2 takeWhile_absent)

lemma pairUsername_eq:
  "pairUsername v =
    (if CHR '';'' \<in> set v then TrimSpace (tl (dropWhile (\<lambda>c. c \<noteq> CHR '';'') v)) else [])"
  by (simp add: pairUsername_def SplitN_2)

lemma ByInitials_found:
  assumes "Pairs (file a) initials = Some v"
  shows "ByInitials h w a initials =
    obind (buildEmail h w a initials (pairName v) (pairUsername v)) (\<lambda>(email, err).
      case err of
        Some e \<Rightarrow> Return (None, Some e)
      | None \<Rightarrow> Return (Some \<lparr>Name = pairName v, Email = email, Initials = initials,
                                Username = pairUsername v\<rparr>, None))"
  unfolding pairName_eq pairUsername_eq using assms
  by (simp add: ByInitials_def SplitN_2 index_def Let_def takeWhile_absent)

lemma ByInitials_absent:
  assumes "Pairs (file a) initials = None"
  shows "ByInitials h w a initials = Return (None, Some (UnknownInitials initials))"
  using assms by (simp add: ByInitials_def UnknownInitials_def)

lemma buildEmail_chain_error:
  assumes "buildEmail_chain h a initials name username = Return (email, Some e)"
  shows "\<exists>cause. e = TemplateError cause"
  using assms
  by (auto simp: buildEmail_chain_def Let_def index_def
           split: option.splits sum.splits if_splits outcome.splits)

lemma buildEmail_noLookupResult:
  "noLookupResult h w a initials name username \<Longrightarrow>
    buildEmail h w a initials name username = buildEmail_chain h a initials name username"
  by (auto simp: noLookupResult_def buildEmail_def Let_def split: sum.splits)

lemma buildEmail_error:
  assumes "buildEmail h w a initials name username = Return (email, Some e)"
  shows "ResolutionFailure e"
proof (cases "noLookupResult h w a initials name username")
  case True
  with assms buildEmail_chain_error [of h a initials name username email e] show ?thesis
    by (auto simp: buildEmail_noLookupResult)
next
  case False
  with assms show ?thesis
    by (auto simp: noLookupResult_def buildEmail_def Let_def split: sum.splits if_splits)
qed

text \<open>
  Claim C10. The byte index \<^verbatim>\<open>[0]\<close> of line 121 is in bounds on every name that
  \<^verbatim>\<open>ByInitials\<close> passes on: the name is trimmed, so when it splits into two tokens at
  its first space, the first token is not empty, and neither is its trimmed lower case.
  Hence \<^verbatim>\<open>buildEmail\<close> does not panic on these names, and \<^verbatim>\<open>ByInitials\<close> never panics,
  whatever the host, the configuration and the initials.
\<close>

theorem ByInitials_never_panics:
  "ByInitials h w a initials \<noteq> Panic
   \<and> buildEmail h w a initials (pairName v) (pairUsername v) \<noteq> Panic
   \<and> (length (SplitN (pairName v) CHR '' '' 2) = 2 \<longrightarrow>
        SplitN (pairName v) CHR '' '' 2 ! 0 \<noteq> []
        \<and> 0 < length (ToLower (caseTable h) (TrimSpace (SplitN (pairName v) CHR '' '' 2 ! 0))))"
proof (intro conjI impI)
  show build: "buildEmail h w a initials (pairName v) (pairUsername v) \<noteq> Panic" for v
    unfolding pairName_eq by (rule buildEmail_no_panic)
  show "ByInitials h w a initials \<noteq> Panic"
  proof (cases "Pairs (file a) initials")
    case None
    then show ?thesis by (simp add: ByInitials_absent)
  next
    case (Some v)
    from build [of v] obtain email err
      where "buildEmail h w a initials (pairName v) (pairUsername v) = Return (email, err)"
      by (cases "buildEmail h w a initials (pairName v) (pairUsername v)") auto
    with Some show ?thesis
      by (simp add: ByInitials_found split: option.split)
  qed
next
  assume "length (SplitN (pairName v) CHR '' '' 2) = 2"
  then have sp: "CHR '' '' \<in> set (pairName v)"
    by (simp add: SplitN_2_length split: if_splits)
  then have tok: "SplitN (pairName v) CHR '' '' 2 ! 0 = takeWhile (\<lambda>c. c \<noteq> CHR '' '') (pairName v)"
    by (simp add: SplitN_2)
  from sp have "TrimSpace (takeWhile (\<lambda>c. c \<noteq> CHR '' '') (pairName v)) \<noteq> []"
    unfolding pairName_eq by (rule first_token_trims_nonempty)
  then show "SplitN (pairName v) CHR '' '' 2 ! 0 \<noteq> []"
    unfolding tok by (auto simp: TrimSpace_Nil)
  from \<open>TrimSpace (takeWhile (\<lambda>c. c \<noteq> CHR '' '') (pairName v)) \<noteq> []\<close>
  show "0 < length (ToLower (caseTable h) (TrimSpace (SplitN (pairName v) CHR '' '' 2 ! 0)))"
    unfolding tok by (simp add: ToLower_nonempty)
qed

theorem ByInitials_never_panics_witness:
  "length (SplitN (pairName ''Alice Brown'') CHR '' '' 2) = 2
   \<and> SplitN (pairName ''Alice Brown'') CHR '' '' 2 ! 0 = ''Alice''
   \<and> 0 < length (ToLower (caseTable exampleHost)
                   (TrimSpace (SplitN (pairName ''Alice Brown'') CHR '' '' 2 ! 0)))
   \<and> ByInitials exampleHost [] (examplePairs []) ''AB'' \<noteq> Panic"
  using ByInitials_never_panics [of exampleHost "[]" "examplePairs []" "''AB''" "''Alice Brown''"]
  by (simp add: pairName_eq ascii_eval)

text \<open>
  The index is out of range on a name that was not trimmed: \<^verbatim>\<open>buildEmail\<close> called with
  a name that begins with a space panics in the name-derived strategy.
\<close>

lemma buildEmail_panics_on_untrimmed_name:
  "buildEmail exampleHost [] (examplePairs []) ''XY'' '' Alice'' [] = Panic"
  by (simp add: buildEmail_def buildEmail_chain_def examplePairs_def exampleFile_def
        index_def ascii_eval)

section \<open>The claims on errors\<close>

text \<open>
  Claim C3. \<^verbatim>\<open>ByInitials\<close> fails with the error \<^verbatim>\<open>unknown initials\<close>, carrying the
  initials asked for, exactly when these are no key of the authors map: for absent
  initials that error is the result, for present ones no result is such an error,
  whichever initials it would name.
\<close>

theorem ByInitials_UnknownInitials_iff:
  "(Pairs (file a) initials = None \<longrightarrow>
      ByInitials h w a initials = Return (None, Some (UnknownInitials initials)))
   \<and> (Pairs (file a) initials \<noteq> None \<longrightarrow>
      ByInitials h w a initials \<noteq> Return (p, Some (UnknownInitials initials')))"
proof (intro conjI impI)
  assume "Pairs (file a) initials = None"
  then show "ByInitials h w a initials = Return (None, Some (UnknownInitials initials))"
    by (rule ByInitials_absent)
next
  assume "Pairs (file a) initials \<noteq> None"
  then obtain v where v: "Pairs (file a) initials = Some v"
    by auto
  show "ByInitials h w a initials \<noteq> Return (p, Some (UnknownInitials initials'))"
  proof
    assume r: "ByInitials h w a initials = Return (p, Some (UnknownInitials initials'))"
    then obtain email
      where "buildEmail h w a initials (pairName v) (pairUsername v)
               = Return (email, Some (UnknownInitials initials'))"
      unfolding ByInitials_found [OF v]
      by (cases "buildEmail h w a initials (pairName v) (pairUsername v)")
         (auto split: option.splits)
    from buildEmail_error [OF this] show False
      by (simp add: UnknownInitials_def)
  qed
qed

theorem ByInitials_UnknownInitials_iff_witness:
  "Pairs (file (examplePairs [])) ''ZZ'' = None
   \<and> ByInitials exampleHost [] (examplePairs []) ''ZZ''
        = Return (None, Some (UnknownInitials ''ZZ''))
   \<and> Pairs (file (examplePairs ''fail'')) ''AB'' \<noteq> None
   \<and> ByInitials exampleHost [] (examplePairs ''fail'') ''AB''
        \<noteq> Return (None, Some (UnknownInitials ''AB''))"
  using ByInitials_UnknownInitials_iff [of "examplePairs []" "''ZZ''" exampleHost "[]" None "''ZZ''"]
    ByInitials_UnknownInitials_iff
      [of "examplePairs ''fail''" "''AB''" exampleHost "[]" None "''AB''"]
  by (simp add: examplePairs_def exampleFile_def)

text \<open>
  Claim C4. With a lookup command set, the command is run with the arguments initials,
  name and username, in this order. When the run fails, the lookup returns no pair and
  that error, a resolution failure. When the trimmed output is not empty, it is the
  email of the pair. When it is empty, the lookup goes on as if no command were set,
  and so uses the entry of the override map when there is one.
\<close>

theorem ByInitials_lookup_command:
  assumes "Pairs (file a) initials = Some v" and "emailLookup a \<noteq> []"
  shows
    "(exec_Run h w (emailLookup a) [initials, pairName v, pairUsername v] = Inl cause \<longrightarrow>
        ByInitials h w a initials = Return (None, Some (ExecError cause))
        \<and> ResolutionFailure (ExecError cause))
     \<and> (exec_Run h w (emailLookup a) [initials, pairName v, pairUsername v] = Inr out
          \<and> TrimSpace out \<noteq> [] \<longrightarrow>
        ByInitials h w a initials =
          Return (Some \<lparr>Name = pairName v, Email = TrimSpace out, Initials = initials,
                         Username = pairUsername v\<rparr>, None))
     \<and> (exec_Run h w (emailLookup a) [initials, pairName v, pairUsername v] = Inr out
          \<and> TrimSpace out = [] \<longrightarrow>
        ByInitials h w a initials = ByInitials h w (a\<lparr>emailLookup := []\<rparr>) initials
        \<and> (\<forall>e. EmailAddresses (file a) initials = Some e \<longrightarrow>
              ByInitials h w a initials =
                Return (Some \<lparr>Name = pairName v, Email = e, Initials = initials,
                               Username = pairUsername v\<rparr>, None)))"
proof (intro conjI impI allI)
  let ?run = "exec_Run h w (emailLookup a) [initials, pairName v, pairUsername v]"
  let ?build = "buildEmail h w a initials (pairName v) (pairUsername v)"
  note found = ByInitials_found [OF assms(1), of h w]
  {
    assume "?run = Inl cause"
    with assms(2) have "?build = Return ([], Some (ExecError cause))"
      by (simp add: buildEmail_def)
    then show "ByInitials h w a initials = Return (None, Some (ExecError cause))"
      by (simp add: found)
    show "ResolutionFailure (ExecError cause)"
      by simp
  next
    assume "?run = Inr out \<and> TrimSpace out \<noteq> []"
    with assms(2) have "?build = Return (TrimSpace out, None)"
      by (simp add: buildEmail_def)
    then show "ByInitials h w a initials =
        Return (Some \<lparr>Name = pairName v, Email = TrimSpace out, Initials = initials,
                       Username = pairUsername v\<rparr>, None)"
      by (simp add: found)
  next
    assume "?run = Inr out \<and> TrimSpace out = []"
    then have "noLookupResult h w a initials (pairName v) (pairUsername v)"
      by (simp add: noLookupResult_def)
    then have build: "?build = buildEmail_chain h a initials (pairName v) (pairUsername v)"
      by (rule buildEmail_noLookupResult)
    have same: "file (a\<lparr>emailLookup := []\<rparr>) = file a"
      by simp
    have "buildEmail_chain h (a\<lparr>emailLookup := []\<rparr>) initials (pairName v) (pairUsername v)
        = buildEmail_chain h a initials (pairName v) (pairUsername v)"
      unfolding buildEmail_chain_def same by (rule refl)
    then have "buildEmail h w (a\<lparr>emailLookup := []\<rparr>) initials (pairName v) (pairUsername v)
        = buildEmail_chain h a initials (pairName v) (pairUsername v)"
      by (simp add: buildEmail_def)
    moreover from assms(1) have "Pairs (file (a\<lparr>emailLookup := []\<rparr>)) initials = Some v"
      by simp
    ultimately show "ByInitials h w a initials = ByInitials h w (a\<lparr>emailLookup := []\<rparr>) initials"
      by (simp add: found build ByInitials_found)
    fix e
    assume "EmailAddresses (file a) initials = Some e"
    then have "buildEmail_chain h a initials (pairName v) (pairUsername v) = Return (e, None)"
      by (simp add: buildEmail_chain_def)
    then show "ByInitials h w a initials =
        Return (Some \<lparr>Name = pairName v, Email = e, Initials = initials,
                       Username = pairUsername v\<rparr>, None)"
      by (simp add: found build)
  }
qed

lemma example_entries:
  "pairName ''Alice Brown'' = ''Alice Brown''" "pairUsername ''Alice Brown'' = []"
  "pairName ''Cher'' = ''Cher''" "pairUsername ''Cher'' = []"
  "pairName ''Eve Foo; efoo'' = ''Eve Foo''" "pairUsername ''Eve Foo; efoo'' = ''efoo''"
  "pairName ''Grace Hopper'' = ''Grace Hopper''" "pairUsername ''Grace Hopper'' = []"
  by (simp_all add: pairName_eq pairUsername_eq ascii_eval)

theorem ByInitials_lookup_command_witness:
  "ByInitials exampleHost [] (examplePairs ''fail'') ''AB''
      = Return (None, Some (ExecError ''exit status 1''))
   \<and> ByInitials exampleHost [] (examplePairs ''ldap'') ''GH''
      = Return (Some \<lparr>Name = ''Grace Hopper'', Email = ''GH@corp.example'', Initials = ''GH'',
                       Username = []\<rparr>, None)
   \<and> ByInitials exampleHost [] (examplePairs ''silent'') ''GH''
      = Return (Some \<lparr>Name = ''Grace Hopper'', Email = ''grace@navy.mil'', Initials = ''GH'',
                       Username = []\<rparr>, None)"
proof -
  have ab: "Pairs (file (examplePairs c)) ''AB'' = Some ''Alice Brown''"
    and gh: "Pairs (file (examplePairs c)) ''GH'' = Some ''Grace Hopper''"
    and over: "EmailAddresses (file (examplePairs c)) ''GH'' = Some ''grace@navy.mil''" for c
    by (simp_all add: examplePairs_def exampleFile_def)
  have cmd: "emailLookup (examplePairs ''fail'') \<noteq> []"
    "emailLookup (examplePairs ''ldap'') \<noteq> []" "emailLookup (examplePairs ''silent'') \<noteq> []"
    by (simp_all add: examplePairs_def)
  have run:
    "exec_Run exampleHost [] (emailLookup (examplePairs ''fail''))
       [''AB'', ''Alice Brown'', []] = Inl ''exit status 1''"
    "exec_Run exampleHost [] (emailLookup (examplePairs ''ldap''))
       [''GH'', ''Grace Hopper'', []]
       = Inr ''GH@corp.example\<newline>''"
    "exec_Run exampleHost [] (emailLookup (examplePairs ''silent''))
       [''GH'', ''Grace Hopper'', []] = Inr ''\<newline>''"
    by (simp_all add: exampleHost_def examplePairs_def)
  have out: "TrimSpace ''GH@corp.example\<newline>'' = ''GH@corp.example''" "TrimSpace ''\<newline>'' = []"
    by (simp_all add: ascii_eval)
  from ByInitials_lookup_command [OF ab cmd(1), of exampleHost "[]" "''exit status 1''" "[]"]
    ByInitials_lookup_command [OF gh cmd(2), of exampleHost "[]" "[]" "''GH@corp.example\<newline>''"]
    ByInitials_lookup_command [OF gh cmd(3), of exampleHost "[]" "[]" "''\<newline>''"]
  show ?thesis
    unfolding example_entries run out using over by blast
qed

text \<open>
  Claim C5. A result of \<^verbatim>\<open>ByInitials\<close> carries either an error and no pair, or a pair
  and no error: on every failure the pair is nil, and the error is the unknown-initials
  error of line 143 or a resolution failure. Each kind of failure reaches the caller as
  it is, with no pair. Initials that are no key of the authors map give the
  unknown-initials error. A lookup command whose run fails gives the error of the run.
  When the lookup reaches the template (no result of a lookup command, no entry in the
  override map, a template set) and the template does not parse, or parses and does not
  render, the result is that error of the template package.
\<close>

theorem ByInitials_failure_returns_no_pair:
  "(ByInitials h w a initials = Return (p, Some e) \<longrightarrow>
      p = None \<and> (e = UnknownInitials initials \<or> ResolutionFailure e))
   \<and> (ByInitials h w a initials = Return (p, None) \<longrightarrow> p \<noteq> None)
   \<and> (Pairs (file a) initials = None \<longrightarrow>
        ByInitials h w a initials = Return (None, Some (UnknownInitials initials)))
   \<and> (Pairs (file a) initials = Some v \<and> emailLookup a \<noteq> []
        \<and> exec_Run h w (emailLookup a) [initials, pairName v, pairUsername v] = Inl failure
        \<longrightarrow>
        ByInitials h w a initials = Return (None, Some (ExecError failure))
        \<and> ResolutionFailure (ExecError failure))
   \<and> (Pairs (file a) initials = Some v
        \<and> noLookupResult h w a initials (pairName v) (pairUsername v)
        \<and> EmailAddresses (file a) initials = None
        \<and> EmailTemplate (file a) \<noteq> []
        \<and> (template_Parse h (EmailTemplate (file a)) = Inl cause
             \<or> (\<exists>t. template_Parse h (EmailTemplate (file a)) = Inr t
                  \<and> template_Execute h t
                        \<lparr>Name = pairName v, Email = [], Initials = initials,
                           Username = pairUsername v\<rparr> = Inl cause)) \<longrightarrow>
        ByInitials h w a initials = Return (None, Some (TemplateError cause))
        \<and> ResolutionFailure (TemplateError cause))"
proof (intro conjI impI)
  have shape: "(e' = None) = (p \<noteq> None)
      \<and> (\<forall>e. e' = Some e \<longrightarrow> e = UnknownInitials initials \<or> ResolutionFailure e)"
    if r: "ByInitials h w a initials = Return (p, e')" for e'
  proof (cases "Pairs (file a) initials")
    case None
    with r show ?thesis
      by (auto simp: ByInitials_absent)
  next
    case (Some v)
    let ?build = "buildEmail h w a initials (pairName v) (pairUsername v)"
    from r obtain email err where b: "?build = Return (email, err)"
      unfolding ByInitials_found [OF Some] by (cases ?build) auto
    show ?thesis
    proof (cases err)
      case None
      with r b show ?thesis
        unfolding ByInitials_found [OF Some] by auto
    next
      case (Some e)
      with b have "ResolutionFailure e"
        by (auto intro: buildEmail_error)
      with r b Some show ?thesis
        unfolding ByInitials_found [OF \<open>Pairs (file a) initials = Some v\<close>] by auto
    qed
  qed
  {
    assume "ByInitials h w a initials = Return (p, Some e)"
    from shape [OF this] show "p = None"
      and "e = UnknownInitials initials \<or> ResolutionFailure e"
      by simp_all
  next
    assume "ByInitials h w a initials = Return (p, None)"
    from shape [OF this] show "p \<noteq> None"
      by simp
  }
next
  assume "Pairs (file a) initials = None"
  then show "ByInitials h w a initials = Return (None, Some (UnknownInitials initials))"
    by (rule ByInitials_absent)
next
  assume c: "Pairs (file a) initials = Some v \<and> emailLookup a \<noteq> []
      \<and> exec_Run h w (emailLookup a) [initials, pairName v, pairUsername v] = Inl failure"
  then have "buildEmail h w a initials (pairName v) (pairUsername v)
      = Return ([], Some (ExecError failure))"
    by (simp add: buildEmail_def)
  with c show "ByInitials h w a initials = Return (None, Some (ExecError failure))"
    by (simp add: ByInitials_found)
  show "ResolutionFailure (ExecError failure)"
    by simp
next
  assume c: "Pairs (file a) initials = Some v
        \<and> noLookupResult h w a initials (pairName v) (pairUsername v)
        \<and> EmailAddresses (file a) initials = None
        \<and> EmailTemplate (file a) \<noteq> []
        \<and> (template_Parse h (EmailTemplate (file a)) = Inl cause
             \<or> (\<exists>t. template_Parse h (EmailTemplate (file a)) = Inr t
                  \<and> template_Execute h t
                        \<lparr>Name = pairName v, Email = [], Initials = initials,
                           Username = pairUsername v\<rparr> = Inl cause))"
  then have "buildEmail h w a initials (pairName v) (pairUsername v)
      = buildEmail_chain h a initials (pairName v) (pairUsername v)"
    by (simp add: buildEmail_noLookupResult)
  also from c have "\<dots> = Return ([], Some (TemplateError cause))"
    by (auto simp: buildEmail_chain_def)
  finally show "ByInitials h w a initials = Return (None, Some (TemplateError cause))"
    using c by (simp add: ByInitials_found)
  show "ResolutionFailure (TemplateError cause)"
    by simp
qed

theorem ByInitials_failure_returns_no_pair_witness:
  "ByInitials exampleHost []
      (examplePairs []\<lparr>file := exampleFile\<lparr>EmailTemplate := ''{{''\<rparr>\<rparr>) ''AB''
     = Return (None, Some (TemplateError ''unclosed action''))
   \<and> ByInitials exampleHost []
      (examplePairs []\<lparr>file := exampleFile\<lparr>EmailTemplate := ''{{.Missing}}''\<rparr>\<rparr>) ''AB''
     = Return (None, Some (TemplateError ''cannot evaluate field Missing''))
   \<and> ByInitials exampleHost [] (examplePairs ''fail'') ''GH''
     = Return (None, Some (ExecError ''exit status 1''))
   \<and> ByInitials exampleHost [] (examplePairs []) ''ZZ''
     = Return (None, Some (UnknownInitials ''ZZ''))"
proof -
  let ?a = "\<lambda>t. examplePairs []\<lparr>file := exampleFile\<lparr>EmailTemplate := t\<rparr>\<rparr>"
  have cfg: "Pairs (file (?a t)) ''AB'' = Some ''Alice Brown''"
    "EmailAddresses (file (?a t)) ''AB'' = None" "EmailTemplate (file (?a t)) = t"
    "noLookupResult exampleHost [] (?a t) ''AB'' ''Alice Brown'' []" for t
    by (simp_all add: examplePairs_def exampleFile_def noLookupResult_def)
  have tpl: "template_Parse exampleHost ''{{'' = Inl ''unclosed action''"
    "template_Parse exampleHost ''{{.Missing}}'' = Inr ''{{.Missing}}''"
    "template_Execute exampleHost ''{{.Missing}}''
       \<lparr>Name = ''Alice Brown'', Email = [], Initials = ''AB'', Username = []\<rparr>
      = Inl ''cannot evaluate field Missing''"
    by (simp_all add: exampleHost_def)
  have cmd: "Pairs (file (examplePairs ''fail'')) ''GH'' = Some ''Grace Hopper''"
    "emailLookup (examplePairs ''fail'') \<noteq> []"
    "exec_Run exampleHost [] (emailLookup (examplePairs ''fail''))
       [''GH'', ''Grace Hopper'', []] = Inl ''exit status 1''"
    "Pairs (file (examplePairs [])) ''ZZ'' = None"
    by (simp_all add: examplePairs_def exampleFile_def exampleHost_def)
  note parse = ByInitials_failure_returns_no_pair
      [where h = exampleHost and w = "[]" and a = "?a ''{{''" and initials = "''AB''"
        and v = "''Alice Brown''" and cause = "''unclosed action''",
       THEN conjunct2, THEN conjunct2, THEN conjunct2, THEN conjunct2]
  note render = ByInitials_failure_returns_no_pair
      [where h = exampleHost and w = "[]" and a = "?a ''{{.Missing}}''" and initials = "''AB''"
        and v = "''Alice Brown''" and cause = "''cannot evaluate field Missing''",
       THEN conjunct2, THEN conjunct2, THEN conjunct2, THEN conjunct2]
  note run = ByInitials_failure_returns_no_pair
      [where h = exampleHost and w = "[]" and a = "examplePairs ''fail''" and initials = "''GH''"
        and v = "''Grace Hopper''" and failure = "''exit status 1''",
       THEN conjunct2, THEN conjunct2, THEN conjunct2, THEN conjunct1]
  note unknown = ByInitials_failure_returns_no_pair
      [where h = exampleHost and w = "[]" and a = "examplePairs []" and initials = "''ZZ''",
       THEN conjunct2, THEN conjunct2, THEN conjunct1]
  from parse cfg tpl
  have "ByInitials exampleHost [] (?a ''{{'') ''AB''
      = Return (None, Some (TemplateError ''unclosed action''))"
    unfolding example_entries by simp
  moreover from render cfg tpl
  have "ByInitials exampleHost [] (?a ''{{.Missing}}'') ''AB''
      = Return (None, Some (TemplateError ''cannot evaluate field Missing''))"
    unfolding example_entries by simp
  moreover from run cmd
  have "ByInitials exampleHost [] (examplePairs ''fail'') ''GH''
      = Return (None, Some (ExecError ''exit status 1''))"
    unfolding example_entries by simp
  moreover from unknown cmd
  have "ByInitials exampleHost [] (examplePairs []) ''ZZ''
      = Return (None, Some (UnknownInitials ''ZZ''))"
    by simp
  ultimately show ?thesis
    by (intro conjI)
qed

text \<open>
  Claim C7. When the lookup reaches neither a result of the lookup command, nor an
  entry of the override map, nor a template, and the entry has a username, the email
  is the trimmed username, then \<^verbatim>\<open>@\<close>, then the configured domain: the username comes
  before the strategy that derives the address from the name. The entry
  \<^verbatim>\<open>EF: "Eve Foo; efoo"\<close> with the domain \<^verbatim>\<open>example.com\<close> gives \<^verbatim>\<open>efoo@example.com\<close>.
\<close>

theorem ByInitials_username_domain:
  assumes "Pairs (file a) initials = Some v"
    and "noLookupResult h w a initials (pairName v) (pairUsername v)"
    and "EmailAddresses (file a) initials = None"
    and "EmailTemplate (file a) = []"
    and "pairUsername v \<noteq> []"
  shows "ByInitials h w a initials =
    Return (Some \<lparr>Name = pairName v,
                   Email = TrimSpace (pairUsername v) @ ''@'' @ Domain (EmailSection (file a)),
                   Initials = initials, Username = pairUsername v\<rparr>, None)"
proof -
  from assms(2) have "buildEmail h w a initials (pairName v) (pairUsername v)
      = buildEmail_chain h a initials (pairName v) (pairUsername v)"
    by (rule buildEmail_noLookupResult)
  also from assms(3-5) have "\<dots> =
      Return (TrimSpace (pairUsername v) @ ''@'' @ Domain (EmailSection (file a)), None)"
    by (simp add: buildEmail_chain_def)
  finally show ?thesis
    using assms(1) by (simp add: ByInitials_found)
qed

theorem ByInitials_username_domain_witness:
  "ByInitials exampleHost [] (examplePairs []) ''EF'' =
    Return (Some \<lparr>Name = ''Eve Foo'', Email = ''efoo@example.com'', Initials = ''EF'',
                   Username = ''efoo''\<rparr>, None)"
proof -
  have "Pairs (file (examplePairs [])) ''EF'' = Some ''Eve Foo; efoo''"
    and "noLookupResult exampleHost [] (examplePairs []) ''EF''
           (pairName ''Eve Foo; efoo'') (pairUsername ''Eve Foo; efoo'')"
    and "EmailAddresses (file (examplePairs [])) ''EF'' = None"
    and "EmailTemplate (file (examplePairs [])) = []"
    and "pairUsername ''Eve Foo; efoo'' \<noteq> []"
    by (simp_all add: examplePairs_def exampleFile_def noLookupResult_def example_entries)
  from ByInitials_username_domain [OF this, of ] show ?thesis
    by (simp add: example_entries examplePairs_def exampleFile_def ascii_eval)
qed

text \<open>
  Claim C9. Two calls of \<^verbatim>\<open>ByInitials\<close> with the same initials on the same
  configuration, made in two states \<open>w1\<close> and \<open>w2\<close> of the machine, return the same
  result, and so pairs equal in all four fields, provided the lookup command, when one
  is set, answers by its arguments alone: what it returns for given arguments is the
  same in both states.
\<close>

theorem ByInitials_idempotent:
  assumes "emailLookup a \<noteq> [] \<longrightarrow>
    (\<forall>args. exec_Run h w1 (emailLookup a) args = exec_Run h w2 (emailLookup a) args)"
  shows "ByInitials h w1 a initials = ByInitials h w2 a initials"
proof -
  from assms have "buildEmail h w1 a initials name username
      = buildEmail h w2 a initials name username" for name username
    by (simp add: buildEmail_def)
  then have same: "buildEmail h w1 a initials = buildEmail h w2 a initials"
    by (intro ext)
  show ?thesis
    unfolding ByInitials_def same by (rule refl)
qed

theorem ByInitials_idempotent_witness:
  "emailLookup (examplePairs ''ldap'') \<noteq> []
   \<and> (\<forall>args. exec_Run exampleHost ''before'' (emailLookup (examplePairs ''ldap'')) args
              = exec_Run exampleHost ''after'' (emailLookup (examplePairs ''ldap'')) args)
   \<and> ByInitials exampleHost ''before'' (examplePairs ''ldap'') ''AB''
       = ByInitials exampleHost ''after'' (examplePairs ''ldap'') ''AB''"
proof -
  have same: "emailLookup (examplePairs ''ldap'') \<noteq> [] \<longrightarrow>
      (\<forall>args. exec_Run exampleHost ''before'' (emailLookup (examplePairs ''ldap'')) args
              = exec_Run exampleHost ''after'' (emailLookup (examplePairs ''ldap'')) args)"
    by (simp add: exampleHost_def)
  from ByInitials_idempotent [OF same, of "''AB''"] same show ?thesis
    by (simp add: examplePairs_def)
qed

section \<open>The strategies that derive the address\<close>

lemma ByInitials_chain:
  assumes "Pairs (file a) initials = Some v"
    and "noLookupResult h w a initials (pairName v) (pairUsername v)"
    and "buildEmail_chain h a initials (pairName v) (pairUsername v) = Return (email, None)"
  shows "ByInitials h w a initials =
    Return (Some \<lparr>Name = pairName v, Email = email, Initials = initials,
                   Username = pairUsername v\<rparr>, None)"
  using assms by (simp add: ByInitials_found buildEmail_noLookupResult)

lemma buildEmail_chain_override:
  "EmailAddresses (file a) initials = Some e \<Longrightarrow>
    buildEmail_chain h a initials name username = Return (e, None)"
  by (simp add: buildEmail_chain_def)

lemma buildEmail_chain_name:
  assumes "EmailAddresses (file a) initials = None" and "EmailTemplate (file a) = []"
  shows "buildEmail_chain h a initials (pairName v) [] =
    Return
      ((if CHR '' '' \<in> set (pairName v)
        then fmt_c (hd (ToLower (caseTable h)
                      (TrimSpace (takeWhile (\<lambda>c. c \<noteq> CHR '' '') (pairName v)))))
             @ ''.''
             @ ToLower (caseTable h) (TrimSpace (tl (dropWhile (\<lambda>c. c \<noteq> CHR '' '') (pairName v))))
        else ToLower (caseTable h) (TrimSpace (pairName v)))
       @ ''@'' @ Domain (EmailSection (file a)), None)"
proof (cases "CHR '' '' \<in> set (pairName v)")
  case True
  let ?low = "ToLower (caseTable h) (TrimSpace (takeWhile (\<lambda>c. c \<noteq> CHR '' '') (pairName v)))"
  from True have "TrimSpace (takeWhile (\<lambda>c. c \<noteq> CHR '' '') (pairName v)) \<noteq> []"
    unfolding pairName_eq by (rule first_token_trims_nonempty)
  then have "?low \<noteq> []"
    by (rule ToLower_nonempty)
  then have "index ?low 0 = Return (hd ?low)"
    by (simp add: index_def hd_conv_nth)
  with True assms show ?thesis
    by (simp add: buildEmail_chain_def SplitN_2 index_def)
next
  case False
  with assms show ?thesis
    by (simp add: buildEmail_chain_def SplitN_2 index_def)
qed

lemma example_name_derived:
  "buildEmail_chain h (examplePairs c) ''AB'' ''Alice Brown'' []
     = Return (''a.brown@example.com'', None)"
  "buildEmail_chain h (examplePairs c) ''CD'' ''Cher'' [] = Return (''cher@example.com'', None)"
proof -
  have cfg: "EmailAddresses (file (examplePairs c)) ''AB'' = None"
    "EmailAddresses (file (examplePairs c)) ''CD'' = None"
    "EmailTemplate (file (examplePairs c)) = []"
    "Domain (EmailSection (file (examplePairs c))) = ''example.com''"
    by (simp_all add: examplePairs_def exampleFile_def)
  from buildEmail_chain_name [OF cfg(1) cfg(3), of h "''Alice Brown''"]
  show "buildEmail_chain h (examplePairs c) ''AB'' ''Alice Brown'' []
     = Return (''a.brown@example.com'', None)"
    unfolding example_entries cfg by (simp add: ascii_eval)
  from buildEmail_chain_name [OF cfg(2) cfg(3), of h "''Cher''"]
  show "buildEmail_chain h (examplePairs c) ''CD'' ''Cher'' [] = Return (''cher@example.com'', None)"
    unfolding example_entries cfg by (simp add: ascii_eval)
qed

lemma TrimRightFunc_prefix: "\<exists>q. s = TrimRightFunc f s @ q"
proof (induction f s rule: TrimRightFunc.induct)
  case (1 f s)
  show ?case
  proof (cases "s = []")
    case True
    then show ?thesis by (simp add: TrimRightFunc_Nil)
  next
    case False
    obtain r w where d: "decodeLastRune s = (r, w)"
      by (cases "decodeLastRune s") auto
    show ?thesis
    proof (cases "f r")
      case True
      with False d have eq: "TrimRightFunc f s = TrimRightFunc f (take (length s - w) s)"
        by (subst TrimRightFunc.simps) simp
      from "1.IH" [OF False d [symmetric] True]
      obtain q where "take (length s - w) s = TrimRightFunc f (take (length s - w) s) @ q"
        by blast
      then have "s = TrimRightFunc f s @ (q @ drop (length s - w) s)"
        unfolding eq by (metis append.assoc append_take_drop_id)
      then show ?thesis ..
    next
      case nf: False
      with False d have "TrimRightFunc f s = s"
        by (subst TrimRightFunc.simps) simp
      then show ?thesis by simp
    qed
  qed
qed

lemma TrimSpace_hd:
  assumes "s \<noteq> []" and "\<not> IsSpace (fst (decodeRune s))"
  shows "hd (TrimSpace s) = hd s"
proof -
  from TrimLeftFunc_keep [of s IsSpace, OF assms]
  have t: "TrimSpace s = TrimRightFunc IsSpace s"
    by (simp add: TrimSpace_def TrimFunc_def)
  from TrimSpace_nonempty [OF assms] have ne: "TrimSpace s \<noteq> []" .
  from TrimRightFunc_prefix [of s IsSpace] t obtain q where "s = TrimSpace s @ q"
    by auto
  with ne show ?thesis
    by (metis hd_append2)
qed

lemma ToLower_ascii_first:
  assumes "byte c < 0x80"
  shows "\<exists>rest. ToLower table (c # s)
    = (if 0x41 \<le> byte c \<and> byte c \<le> 0x5A then char_of (byte c + 32) else c) # rest"
proof (cases "list_all (\<lambda>c. byte c < 0x80) (c # s)")
  case True
  then show ?thesis
    by (simp add: ToLower_def)
next
  case False
  from assms have "Map (unicode_ToLower table) (c # s)
      = encodeRune (unicode_ToLower table (byte c)) @ Map (unicode_ToLower table) s"
    by (subst Map.simps) (simp add: decodeRune_ascii)
  moreover from assms have "encodeRune (unicode_ToLower table (byte c))
      = [if 0x41 \<le> byte c \<and> byte c \<le> 0x5A then char_of (byte c + 32) else c]"
    by (simp add: unicode_ToLower_def encodeRune_def byte_def)
  ultimately show ?thesis
    using False by (simp add: ToLower_def)
qed

lemma lower_byte_ascii:
  assumes "byte c < 0x80"
  shows "byte (if 0x41 \<le> byte c \<and> byte c \<le> 0x5A then char_of (byte c + 32) else c) < 0x80"
  using assms by (simp add: byte_def)

lemma fmt_c_ascii: "byte d < 0x80 \<Longrightarrow> fmt_c d = [d]"
  by (simp add: fmt_c_def encodeRune_def byte_def)

lemma firstChar_ascii: "byte d < 0x80 \<Longrightarrow> firstChar (d # rest) = [d]"
  by (simp add: firstChar_def decodeRune_ascii)

lemma name_derived_agrees_with_spec_on_ascii_initial:
  assumes "EmailAddresses (file a) initials = None" and "EmailTemplate (file a) = []"
    and ascii: "pairName v \<noteq> [] \<longrightarrow> byte (hd (pairName v)) < 0x80"
  shows "buildEmail_chain h a initials (pairName v) [] =
    Return (spec_nameDerived (caseTable h) (pairName v) (Domain (EmailSection (file a))), None)"
proof (cases "CHR '' '' \<in> set (pairName v)")
  case False
  then have "spec_nameDerived (caseTable h) (pairName v) (Domain (EmailSection (file a)))
      = ToLower (caseTable h) (TrimSpace (pairName v)) @ ''@'' @ Domain (EmailSection (file a))"
    by (simp add: spec_nameDerived_def SplitN_2)
  with False buildEmail_chain_name [OF assms(1,2), of h v] show ?thesis
    by simp
next
  case True
  let ?name = "pairName v"
  let ?tok = "takeWhile (\<lambda>c. c \<noteq> CHR '' '') ?name"
  let ?lower = "\<lambda>c. if 0x41 \<le> byte c \<and> byte c \<le> 0x5A then char_of (byte c + 32) else c"
  from True obtain c cs where name: "?name = c # cs"
    by (cases ?name) auto
  with ascii have c: "byte c < 0x80" by simp
  from name have "TrimSpace (takeWhile (\<lambda>c. c \<noteq> CHR '';'') v) \<noteq> []"
    by (simp add: pairName_eq)
  from TrimSpace_first [OF this] name c have nsp: "\<not> IsSpace (byte c)"
    by (simp add: pairName_eq [symmetric] decodeRune_ascii)
  then have "c \<noteq> CHR '' ''"
    by (auto simp: IsSpace_def byte_def)
  with name have tok: "?tok = c # takeWhile (\<lambda>c. c \<noteq> CHR '' '') cs"
    by simp
  from c nsp have first: "?tok \<noteq> []" "\<not> IsSpace (fst (decodeRune ?tok))"
    unfolding tok by (simp_all add: decodeRune_ascii)
  from TrimSpace_hd [OF first] TrimSpace_nonempty [OF first]
  obtain t where trimmed: "TrimSpace ?tok = c # t"
    unfolding tok by (cases "TrimSpace (c # takeWhile (\<lambda>c. c \<noteq> CHR '' '') cs)") auto
  from ToLower_ascii_first [OF c, of "caseTable h" t]
  obtain rest where "ToLower (caseTable h) (TrimSpace ?tok) = ?lower c # rest"
    unfolding trimmed by blast
  then have code: "fmt_c (hd (ToLower (caseTable h) (TrimSpace ?tok))) = [?lower c]"
    using lower_byte_ascii [OF c] by (simp add: fmt_c_ascii)
  from ToLower_ascii_first [OF c, of "caseTable h" "takeWhile (\<lambda>c. c \<noteq> CHR '' '') cs"]
  obtain rest' where "ToLower (caseTable h) ?tok = ?lower c # rest'"
    unfolding tok by blast
  then have spec: "firstChar (ToLower (caseTable h) ?tok) = [?lower c]"
    using lower_byte_ascii [OF c] by (simp add: firstChar_ascii)
  from True have "spec_nameDerived (caseTable h) ?name (Domain (EmailSection (file a)))
      = firstChar (ToLower (caseTable h) ?tok) @ ''.''
          @ ToLower (caseTable h) (TrimSpace (tl (dropWhile (\<lambda>c. c \<noteq> CHR '' '') ?name)))
          @ ''@'' @ Domain (EmailSection (file a))"
    by (simp add: spec_nameDerived_def SplitN_2)
  with True buildEmail_chain_name [OF assms(1,2), of h v] code spec show ?thesis
    by simp
qed

lemma accented_entry:
  "pairName ([CHR 0xC3, CHR 0x89] @ ''mile Zola'') = [CHR 0xC3, CHR 0x89] @ ''mile Zola''"
  "pairUsername ([CHR 0xC3, CHR 0x89] @ ''mile Zola'') = []"
  by (simp_all add: pairName_eq pairUsername_eq ascii_eval TrimLeftFunc_keep Let_def cont_def)

lemma accented_lower:
  "ToLower table ([CHR 0xC3, CHR 0x89] @ ''mile'') = [CHR 0xC3, CHR 0xA9] @ ''mile''"
  by (simp add: ascii_eval Map.simps Let_def cont_def unicode_ToLower_def)

text \<open>
  Claim C2. The claim holds for every name whose first byte is ASCII
  (\<open>name_derived_agrees_with_spec_on_ascii_initial\<close> above), and so for
  \<^verbatim>\<open>AB: "Alice Brown"\<close>, which gives \<^verbatim>\<open>a.brown@example.com\<close>. It fails for a name that
  begins with another letter. Line 121 takes the first byte of the lower-cased token and
  prints it with \<^verbatim>\<open>%c\<close>, which reads the byte as a code point. For the entry of
  \<open>accentedPairs\<close> the lower-cased first token begins with the letter U+00E9, the bytes
  C3 A9; the address that \<^verbatim>\<open>ByInitials\<close> returns begins with the bytes C3 83, the letter
  U+00C3, while the address of the specification begins with C3 A9.
\<close>

theorem name_derived_first_byte_not_first_character:
  "ByInitials h w accentedPairs ''EZ'' =
     Return (Some \<lparr>Name = [CHR 0xC3, CHR 0x89] @ ''mile Zola'',
                    Email = [CHR 0xC3, CHR 0x83] @ ''.zola@example.com'',
                    Initials = ''EZ'', Username = []\<rparr>, None)
   \<and> spec_nameDerived (caseTable h) ([CHR 0xC3, CHR 0x89] @ ''mile Zola'') ''example.com''
       = [CHR 0xC3, CHR 0xA9] @ ''.zola@example.com''
   \<and> ByInitials h w (examplePairs []) ''AB'' =
     Return (Some \<lparr>Name = ''Alice Brown'', Email = ''a.brown@example.com'', Initials = ''AB'',
                    Username = []\<rparr>, None)"
proof (intro conjI)
  let ?v = "[CHR 0xC3, CHR 0x89] @ ''mile Zola''"
  have cfg: "Pairs (file accentedPairs) ''EZ'' = Some ?v"
    "EmailAddresses (file accentedPairs) ''EZ'' = None"
    "EmailTemplate (file accentedPairs) = []"
    "Domain (EmailSection (file accentedPairs)) = ''example.com''"
    "noLookupResult h w accentedPairs ''EZ'' (pairName ?v) (pairUsername ?v)"
    by (simp_all add: accentedPairs_def exampleFile_def noLookupResult_def)
  have low: "ToLower (caseTable h) ''Zola'' = ''zola''"
    "TrimSpace ([CHR 0xC3, CHR 0x89] @ ''mile'') = [CHR 0xC3, CHR 0x89] @ ''mile''"
    "TrimSpace ''Zola'' = ''Zola''"
    by (simp_all add: ascii_eval TrimLeftFunc_keep Let_def cont_def)
  from buildEmail_chain_name [OF cfg(2,3), of h ?v]
  have "buildEmail_chain h accentedPairs ''EZ'' (pairName ?v) (pairUsername ?v)
      = Return ([CHR 0xC3, CHR 0x83] @ ''.zola@example.com'', None)"
    unfolding accented_entry cfg
    using accented_lower [of "caseTable h"] low
    by (simp add: fmt_c_def encodeRune_def byte_def char_of_nat_eq_iff)
  from ByInitials_chain [OF cfg(1) cfg(5) this]
  show "ByInitials h w accentedPairs ''EZ'' =
     Return (Some \<lparr>Name = [CHR 0xC3, CHR 0x89] @ ''mile Zola'',
                    Email = [CHR 0xC3, CHR 0x83] @ ''.zola@example.com'',
                    Initials = ''EZ'', Username = []\<rparr>, None)"
    unfolding accented_entry .
  from accented_lower [of "caseTable h"] low
  show "spec_nameDerived (caseTable h) ([CHR 0xC3, CHR 0x89] @ ''mile Zola'') ''example.com''
       = [CHR 0xC3, CHR 0xA9] @ ''.zola@example.com''"
    by (simp add: spec_nameDerived_def SplitN_2 firstChar_def Let_def cont_def byte_def)
  have "Pairs (file (examplePairs [])) ''AB'' = Some ''Alice Brown''"
    and "noLookupResult h w (examplePairs []) ''AB'' (pairName ''Alice Brown'')
           (pairUsername ''Alice Brown'')"
    and "buildEmail_chain h (examplePairs []) ''AB'' (pairName ''Alice Brown'')
           (pairUsername ''Alice Brown'') = Return (''a.brown@example.com'', None)"
    by (simp_all add: examplePairs_def exampleFile_def noLookupResult_def example_entries
          example_name_derived [unfolded examplePairs_def exampleFile_def])
  from ByInitials_chain [OF this]
  show "ByInitials h w (examplePairs []) ''AB'' =
     Return (Some \<lparr>Name = ''Alice Brown'', Email = ''a.brown@example.com'', Initials = ''AB'',
                    Username = []\<rparr>, None)"
    unfolding example_entries .
qed

text \<open>
  Claim C1. The order of the strategies is fixed, and a non-empty trimmed output of the
  lookup command ends the lookup. But the email is not always that of the first
  strategy with a non-empty result: an entry of the override map is used as it is, also
  when it is the empty string. With
  \<^verbatim>\<open>email_addresses: {AB: ""}\<close> the pair returned for \<^verbatim>\<open>AB\<close> has the empty email, while
  the name-derived strategy, the first one with a non-empty result for this entry, gives
  \<^verbatim>\<open>a.brown@example.com\<close>.
\<close>

theorem empty_override_ends_the_chain:
  "ByInitials h w emptyOverridePairs ''AB'' =
     Return (Some \<lparr>Name = ''Alice Brown'', Email = [], Initials = ''AB'', Username = []\<rparr>,
             None)
   \<and> buildEmail_chain h (examplePairs []) ''AB'' ''Alice Brown'' []
       = Return (''a.brown@example.com'', None)"
proof
  have "Pairs (file emptyOverridePairs) ''AB'' = Some ''Alice Brown''"
    and "noLookupResult h w emptyOverridePairs ''AB'' (pairName ''Alice Brown'')
           (pairUsername ''Alice Brown'')"
    and "buildEmail_chain h emptyOverridePairs ''AB'' (pairName ''Alice Brown'')
           (pairUsername ''Alice Brown'') = Return ([], None)"
    by (simp_all add: emptyOverridePairs_def exampleFile_def noLookupResult_def
          buildEmail_chain_override)
  from ByInitials_chain [OF this]
  show "ByInitials h w emptyOverridePairs ''AB'' =
     Return (Some \<lparr>Name = ''Alice Brown'', Email = [], Initials = ''AB'', Username = []\<rparr>,
             None)"
    unfolding example_entries .
  show "buildEmail_chain h (examplePairs []) ''AB'' ''Alice Brown'' []
       = Return (''a.brown@example.com'', None)"
    by (rule example_name_derived)
qed

text \<open>
  Claim C8, as stated: both fields of \<^verbatim>\<open>emailConfig\<close>, the prefix and the domain, are
  used as defaults by the fallback strategies. The prefix is not: with the prefix
  \<^verbatim>\<open>pair\<close> replaced by \<^verbatim>\<open>team\<close>, the username strategy (entry \<^verbatim>\<open>EF\<close>) and the
  name-derived strategy (entry \<^verbatim>\<open>AB\<close>) return the same pairs as before, and no prefix
  occurs in their addresses.
\<close>

theorem Prefix_is_used_counterexample:
  "ByInitials exampleHost []
      (examplePairs []\<lparr>file := exampleFile\<lparr>EmailSection :=
         \<lparr>Prefix = ''team'', Domain = ''example.com''\<rparr>\<rparr>\<rparr>) ''EF''
     = Return (Some \<lparr>Name = ''Eve Foo'', Email = ''efoo@example.com'', Initials = ''EF'',
                      Username = ''efoo''\<rparr>, None)
   \<and> ByInitials exampleHost [] (examplePairs []) ''EF''
     = Return (Some \<lparr>Name = ''Eve Foo'', Email = ''efoo@example.com'', Initials = ''EF'',
                      Username = ''efoo''\<rparr>, None)
   \<and> ByInitials exampleHost []
      (examplePairs []\<lparr>file := exampleFile\<lparr>EmailSection :=
         \<lparr>Prefix = ''team'', Domain = ''example.com''\<rparr>\<rparr>\<rparr>) ''AB''
     = Return (Some \<lparr>Name = ''Alice Brown'', Email = ''a.brown@example.com'',
                      Initials = ''AB'', Username = []\<rparr>, None)
   \<and> ByInitials exampleHost [] (examplePairs []) ''AB''
     = Return (Some \<lparr>Name = ''Alice Brown'', Email = ''a.brown@example.com'',
                      Initials = ''AB'', Username = []\<rparr>, None)"
proof -
  let ?team = "examplePairs []\<lparr>file := exampleFile\<lparr>EmailSection :=
         \<lparr>Prefix = ''team'', Domain = ''example.com''\<rparr>\<rparr>\<rparr>"
  have team: "?team = examplePairs []\<lparr>file := exampleFile\<lparr>EmailSection :=
      (EmailSection exampleFile)\<lparr>Prefix := ''team''\<rparr>\<rparr>\<rparr>"
    by (simp add: exampleFile_def)
  have entries: "Pairs (file a) ''EF'' = Some ''Eve Foo; efoo''"
    "Pairs (file a) ''AB'' = Some ''Alice Brown''"
    "EmailAddresses (file a) ''EF'' = None" "EmailAddresses (file a) ''AB'' = None"
    "EmailTemplate (file a) = []" "Domain (EmailSection (file a)) = ''example.com''"
    "noLookupResult exampleHost [] a i n u"
    if "a = ?team \<or> a = examplePairs []" for a i n u
    using that by (auto simp: examplePairs_def exampleFile_def noLookupResult_def)
  have ef: "ByInitials exampleHost [] a ''EF''
     = Return (Some \<lparr>Name = ''Eve Foo'', Email = ''efoo@example.com'', Initials = ''EF'',
                      Username = ''efoo''\<rparr>, None)"
    and ab: "ByInitials exampleHost [] a ''AB''
     = Return (Some \<lparr>Name = ''Alice Brown'', Email = ''a.brown@example.com'',
                      Initials = ''AB'', Username = []\<rparr>, None)"
    if a: "a = ?team \<or> a = examplePairs []" for a
  proof -
    from entries(3,5,6) [OF a]
    have "buildEmail_chain exampleHost a ''EF'' (pairName ''Eve Foo; efoo'')
        (pairUsername ''Eve Foo; efoo'') = Return (''efoo@example.com'', None)"
      unfolding example_entries by (simp add: buildEmail_chain_def ascii_eval)
    from ByInitials_chain [OF entries(1) [OF a] entries(7) [OF a] this]
    show "ByInitials exampleHost [] a ''EF''
     = Return (Some \<lparr>Name = ''Eve Foo'', Email = ''efoo@example.com'', Initials = ''EF'',
                      Username = ''efoo''\<rparr>, None)"
      unfolding example_entries .
    from buildEmail_chain_name [OF entries(4) [OF a] entries(5) [OF a], of exampleHost "''Alice Brown''"]
    have "buildEmail_chain exampleHost a ''AB'' (pairName ''Alice Brown'')
        (pairUsername ''Alice Brown'') = Return (''a.brown@example.com'', None)"
      unfolding example_entries entries(6) [OF a] by (simp add: ascii_eval)
    from ByInitials_chain [OF entries(2) [OF a] entries(7) [OF a] this]
    show "ByInitials exampleHost [] a ''AB''
     = Return (Some \<lparr>Name = ''Alice Brown'', Email = ''a.brown@example.com'',
                      Initials = ''AB'', Username = []\<rparr>, None)"
      unfolding example_entries .
  qed
  from ef [of ?team] ef [of "examplePairs []"] ab [of ?team] ab [of "examplePairs []"]
  show ?thesis
    by blast
qed

text \<open>
  Claim C8, amended. Of the two fields of \<^verbatim>\<open>emailConfig\<close> the fallback strategies use the
  domain only: when the lookup reaches them (no entry in the override map, no template),
  the address they build ends with \<^verbatim>\<open>@\<close> and the configured domain. The prefix is
  read from the file and never used: a lookup returns the same result whatever the
  prefix is.
\<close>

theorem lookup_uses_Domain_not_Prefix:
  "ByInitials h w (a\<lparr>file := (file a)\<lparr>EmailSection := (EmailSection (file a))\<lparr>Prefix := p\<rparr>\<rparr>\<rparr>)
      initials = ByInitials h w a initials
   \<and> (EmailAddresses (file a) initials = None \<and> EmailTemplate (file a) = []
        \<and> buildEmail_chain h a initials name username = Return (email, err) \<longrightarrow>
       err = None \<and> (\<exists>local. email = local @ ''@'' @ Domain (EmailSection (file a))))"
proof (intro conjI impI)
  let ?a = "a\<lparr>file := (file a)\<lparr>EmailSection := (EmailSection (file a))\<lparr>Prefix := p\<rparr>\<rparr>\<rparr>"
  have same: "Pairs (file ?a) = Pairs (file a)" "EmailAddresses (file ?a) = EmailAddresses (file a)"
    "EmailTemplate (file ?a) = EmailTemplate (file a)"
    "Domain (EmailSection (file ?a)) = Domain (EmailSection (file a))"
    "emailLookup ?a = emailLookup a"
    by simp_all
  show "ByInitials h w ?a initials = ByInitials h w a initials"
    unfolding ByInitials_def buildEmail_def buildEmail_chain_def same by (rule refl)
next
  assume "EmailAddresses (file a) initials = None \<and> EmailTemplate (file a) = []
        \<and> buildEmail_chain h a initials name username = Return (email, err)"
  then have r: "buildEmail_chain h a initials name username = Return (email, err)"
    and none: "EmailAddresses (file a) initials = None" "EmailTemplate (file a) = []"
    by simp_all
  from r none show "err = None"
    by (auto simp: buildEmail_chain_def Let_def index_def
             split: if_splits outcome.splits)
  from r none show "\<exists>local. email = local @ ''@'' @ Domain (EmailSection (file a))"
    by (auto simp: buildEmail_chain_def Let_def index_def
             split: if_splits outcome.splits)
qed

theorem lookup_uses_Domain_not_Prefix_witness:
  "EmailAddresses (file (examplePairs [])) ''EF'' = None
   \<and> EmailTemplate (file (examplePairs [])) = []
   \<and> buildEmail_chain exampleHost (examplePairs []) ''EF'' ''Eve Foo'' ''efoo''
       = Return (''efoo@example.com'', None)
   \<and> (\<exists>local. ''efoo@example.com''
         = local @ ''@'' @ Domain (EmailSection (file (examplePairs []))))"
proof -
  have cfg: "EmailAddresses (file (examplePairs [])) ''EF'' = None"
    "EmailTemplate (file (examplePairs [])) = []"
    by (simp_all add: examplePairs_def exampleFile_def)
  then have chain: "buildEmail_chain exampleHost (examplePairs []) ''EF'' ''Eve Foo'' ''efoo''
       = Return (''efoo@example.com'', None)"
    by (simp add: buildEmail_chain_def examplePairs_def exampleFile_def ascii_eval)
  from lookup_uses_Domain_not_Prefix
    [where h = exampleHost and w = "[]" and a = "examplePairs []" and p = "[]"
       and initials = "''EF''" and name = "''Eve Foo''" and username = "''efoo''"
       and email = "''efoo@example.com''" and err = None]
    cfg chain
  show ?thesis
    by simp
qed

section \<open>The rewrite of the legacy key\<close>

lemma take_6_append_line:
  assumes "CHR 0x0A \<notin> set l"
  shows "(take 6 (l @ CHR 0x0A # rest) = ''pairs:'') = (take 6 l = ''pairs:'')"
proof (cases "6 \<le> length l")
  case True
  then show ?thesis by simp
next
  case False
  then have short: "length l < 6" by simp
  have "take 6 (l @ CHR 0x0A # rest) \<noteq> ''pairs:''"
  proof
    assume eq: "take 6 (l @ CHR 0x0A # rest) = ''pairs:''"
    from short have "take 6 (l @ CHR 0x0A # rest) ! length l = CHR 0x0A"
      by (simp add: nth_append)
    then have nl: "''pairs:'' ! length l = CHR 0x0A"
      unfolding eq .
    from short have "length l = 0 \<or> length l = 1 \<or> length l = 2 \<or> length l = 3
        \<or> length l = 4 \<or> length l = 5"
      by arith
    with nl show False
      by (auto simp del: length_0_conv)
  qed
  moreover have "take 6 l \<noteq> ''pairs:''"
  proof
    assume "take 6 l = ''pairs:''"
    then have "length (take 6 l) = 6" by simp
    with short show False by simp
  qed
  ultimately show ?thesis by simp
qed

lemma pairsKey_ReplaceAll_from_False_line:
  assumes "CHR 0x0A \<notin> set l"
  shows "pairsKey_ReplaceAll_from False (l @ CHR 0x0A # rest) repl
      = l @ CHR 0x0A # pairsKey_ReplaceAll_from True rest repl"
    and "pairsKey_ReplaceAll_from False l repl = l"
  using assms by (induction l) auto

lemma pairsKey_ReplaceAll_from_True_line:
  assumes nl: "CHR 0x0A \<notin> set l"
  shows "pairsKey_ReplaceAll_from True (l @ CHR 0x0A # rest) repl
      = rewriteLine repl l @ CHR 0x0A # pairsKey_ReplaceAll_from True rest repl"
    and "pairsKey_ReplaceAll_from True l repl = rewriteLine repl l"
proof -
  show "pairsKey_ReplaceAll_from True l repl = rewriteLine repl l"
  proof (cases l)
    case Nil
    then show ?thesis by (simp add: rewriteLine_def)
  next
    case (Cons c cs)
    with nl have "CHR 0x0A \<notin> set (drop 5 cs)" "CHR 0x0A \<notin> set cs" "c \<noteq> CHR 0x0A"
      by (auto dest: in_set_dropD)
    with Cons show ?thesis
      by (simp add: rewriteLine_def pairsKey_ReplaceAll_from_False_line(2))
  qed
  show "pairsKey_ReplaceAll_from True (l @ CHR 0x0A # rest) repl
      = rewriteLine repl l @ CHR 0x0A # pairsKey_ReplaceAll_from True rest repl"
  proof (cases l)
    case Nil
    then show ?thesis by (simp add: rewriteLine_def)
  next
    case (Cons c cs)
    with nl have cs: "CHR 0x0A \<notin> set (drop 5 cs)" "CHR 0x0A \<notin> set cs" "c \<noteq> CHR 0x0A"
      by (auto dest: in_set_dropD)
    show ?thesis
    proof (cases "take 6 l = ''pairs:''")
      case True
      then have "length (take 6 l) = 6"
        by simp
      then have "6 \<le> length l"
        by simp
      with Cons have len: "5 \<le> length cs" by simp
      from True take_6_append_line [OF nl, of rest]
      have "take 6 (l @ CHR 0x0A # rest) = ''pairs:''" by simp
      with Cons True len cs show ?thesis
        by (auto simp: rewriteLine_def pairsKey_ReplaceAll_from_False_line(1))
    next
      case False
      with take_6_append_line [OF nl, of rest]
      have "take 6 (l @ CHR 0x0A # rest) \<noteq> ''pairs:''" by simp
      with Cons False cs show ?thesis
        by (auto simp: rewriteLine_def pairsKey_ReplaceAll_from_False_line(1))
    qed
  qed
qed

lemma split_at_line_feed:
  assumes "CHR 0x0A \<in> set s"
  shows "s = takeWhile (\<lambda>c. c \<noteq> CHR 0x0A) s @ CHR 0x0A # tl (dropWhile (\<lambda>c. c \<noteq> CHR 0x0A) s)"
    and "CHR 0x0A \<notin> set (takeWhile (\<lambda>c. c \<noteq> CHR 0x0A) s)"
proof -
  from assms have "dropWhile (\<lambda>c. c \<noteq> CHR 0x0A) s \<noteq> []"
    by simp
  moreover from this have "hd (dropWhile (\<lambda>c. c \<noteq> CHR 0x0A) s) = CHR 0x0A"
    using hd_dropWhile [of "\<lambda>c. c \<noteq> CHR 0x0A" s] by simp
  ultimately have "dropWhile (\<lambda>c. c \<noteq> CHR 0x0A) s
      = CHR 0x0A # tl (dropWhile (\<lambda>c. c \<noteq> CHR 0x0A) s)"
    by (cases "dropWhile (\<lambda>c. c \<noteq> CHR 0x0A) s") simp_all
  then show "s = takeWhile (\<lambda>c. c \<noteq> CHR 0x0A) s
      @ CHR 0x0A # tl (dropWhile (\<lambda>c. c \<noteq> CHR 0x0A) s)"
    by (metis takeWhile_dropWhile_id)
  show "CHR 0x0A \<notin> set (takeWhile (\<lambda>c. c \<noteq> CHR 0x0A) s)"
    by (auto dest: set_takeWhileD)
qed

lemma lines_of_nonempty: "lines_of s \<noteq> []"
  by (subst lines_of.simps) simp

lemma unlines_of_Cons: "ls \<noteq> [] \<Longrightarrow> unlines_of (l # ls) = l @ CHR 0x0A # unlines_of ls"
  by (cases ls) simp_all

lemma pairsKey_ReplaceAll_from_spec:
  "pairsKey_ReplaceAll_from True s repl = unlines_of (map (rewriteLine repl) (lines_of s))"
proof (induction s rule: lines_of.induct)
  case (1 s)
  show ?case
  proof (cases "CHR 0x0A \<in> set s")
    case False
    then show ?thesis
      by (subst lines_of.simps) (simp add: pairsKey_ReplaceAll_from_True_line(2))
  next
    case True
    let ?l = "takeWhile (\<lambda>c. c \<noteq> CHR 0x0A) s" and ?rest = "tl (dropWhile (\<lambda>c. c \<noteq> CHR 0x0A) s)"
    from split_at_line_feed [OF True]
    have s: "s = ?l @ CHR 0x0A # ?rest" and l: "CHR 0x0A \<notin> set ?l"
      by simp_all
    have "pairsKey_ReplaceAll_from True s repl
        = pairsKey_ReplaceAll_from True (?l @ CHR 0x0A # ?rest) repl"
      using s by simp
    also have "\<dots> = rewriteLine repl ?l @ CHR 0x0A # pairsKey_ReplaceAll_from True ?rest repl"
      by (rule pairsKey_ReplaceAll_from_True_line(1) [OF l])
    also have "\<dots> = rewriteLine repl ?l
        @ CHR 0x0A # unlines_of (map (rewriteLine repl) (lines_of ?rest))"
      using "1.IH" [OF True] by simp
    also have "\<dots> = unlines_of (map (rewriteLine repl) (?l # lines_of ?rest))"
      by (simp add: unlines_of_Cons lines_of_nonempty)
    also have "?l # lines_of ?rest = lines_of s"
      using True by (subst (2) lines_of.simps) simp
    finally show ?thesis .
  qed
qed

lemma pairsKey_ReplaceAll_from_after_line_feed:
  "pairsKey_ReplaceAll_from True (xs @ CHR 0x0A # rest) repl
    = pairsKey_ReplaceAll_from True (xs @ [CHR 0x0A]) repl
        @ pairsKey_ReplaceAll_from True rest repl"
proof (induction xs rule: lines_of.induct)
  case (1 xs)
  show ?case
  proof (cases "CHR 0x0A \<in> set xs")
    case False
    then show ?thesis
      by (simp add: pairsKey_ReplaceAll_from_True_line(1))
  next
    case True
    let ?l = "takeWhile (\<lambda>c. c \<noteq> CHR 0x0A) xs" and ?xs' = "tl (dropWhile (\<lambda>c. c \<noteq> CHR 0x0A) xs)"
    from split_at_line_feed [OF True]
    have xs: "xs = ?l @ CHR 0x0A # ?xs'" and l: "CHR 0x0A \<notin> set ?l"
      by simp_all
    have "pairsKey_ReplaceAll_from True (xs @ CHR 0x0A # rest) repl
        = pairsKey_ReplaceAll_from True (?l @ CHR 0x0A # (?xs' @ CHR 0x0A # rest)) repl"
      by (subst xs) simp
    also have "\<dots> = rewriteLine repl ?l
        @ CHR 0x0A # pairsKey_ReplaceAll_from True (?xs' @ CHR 0x0A # rest) repl"
      by (rule pairsKey_ReplaceAll_from_True_line(1) [OF l])
    also have "\<dots> = (rewriteLine repl ?l
        @ CHR 0x0A # pairsKey_ReplaceAll_from True (?xs' @ [CHR 0x0A]) repl)
        @ pairsKey_ReplaceAll_from True rest repl"
      using "1.IH" [OF True] by simp
    also have "rewriteLine repl ?l @ CHR 0x0A # pairsKey_ReplaceAll_from True (?xs' @ [CHR 0x0A]) repl
        = pairsKey_ReplaceAll_from True (?l @ CHR 0x0A # (?xs' @ [CHR 0x0A])) repl"
      by (rule pairsKey_ReplaceAll_from_True_line(1) [OF l, symmetric])
    also have "?l @ CHR 0x0A # (?xs' @ [CHR 0x0A]) = xs @ [CHR 0x0A]"
      by (subst (3) xs) simp
    finally show ?thesis .
  qed
qed

lemma legacy_key_rewritten_alike:
  assumes "pre = [] \<or> last pre = CHR 0x0A"
  shows "pairsKey_ReplaceAll (pre @ ''pairs:'' @ post) ''authors:''
    = pairsKey_ReplaceAll (pre @ ''authors:'' @ post) ''authors:''"
proof -
  have key: "pairsKey_ReplaceAll_from True (''pairs:'' @ post) ''authors:''
      = pairsKey_ReplaceAll_from True (''authors:'' @ post) ''authors:''"
    by simp
  show ?thesis
  proof (cases "pre = []")
    case True
    with key show ?thesis by (simp add: pairsKey_ReplaceAll_def)
  next
    case False
    with assms obtain xs where pre: "pre = xs @ [CHR 0x0A]"
      by (metis append_butlast_last_id)
    have "pairsKey_ReplaceAll_from True (xs @ CHR 0x0A # ''pairs:'' @ post) ''authors:''
        = pairsKey_ReplaceAll_from True (xs @ CHR 0x0A # ''authors:'' @ post) ''authors:''"
      unfolding pairsKey_ReplaceAll_from_after_line_feed [of xs "''pairs:'' @ post" "''authors:''"]
        pairsKey_ReplaceAll_from_after_line_feed [of xs "''authors:'' @ post" "''authors:''"] key
      by (rule refl)
    then show ?thesis
      unfolding pre pairsKey_ReplaceAll_def by simp
  qed
qed

text \<open>
  Claim C6. A file whose key is written \<^verbatim>\<open>pairs:\<close> at the start of a line loads to the
  same result as the file with \<^verbatim>\<open>authors:\<close> in that place: \<open>w1\<close> and \<open>w2\<close> are two
  machines whose files differ in this key only. The rewrite comes before the parsing:
  the YAML parser is given the rewritten text. And the rewrite is anchored at line
  starts: what \<^verbatim>\<open>ReplaceAll\<close> computes is \<open>spec_rewrite\<close>, which changes the first six
  bytes of the lines that begin with \<^verbatim>\<open>pairs:\<close> and nothing else.
\<close>

theorem legacy_key_pairs_loads_as_authors:
  "(os_Open h w1 filename = Inr f1 \<and> ioutil_ReadAll h w1 f1 = Inr (pre @ ''pairs:'' @ post)
    \<and> os_Open h w2 filename = Inr f2 \<and> ioutil_ReadAll h w2 f2 = Inr (pre @ ''authors:'' @ post)
    \<and> (pre = [] \<or> last pre = CHR 0x0A) \<longrightarrow>
      NewPairsFromFile h w1 filename cmd = NewPairsFromFile h w2 filename cmd)
   \<and> (os_Open h w filename = Inr f \<and> ioutil_ReadAll h w f = Inr contents \<longrightarrow>
      NewPairsFromFile h w filename cmd =
        (case yaml_Unmarshal h (spec_rewrite contents ''authors:'') of
           Inl err \<Rightarrow> (None, Some (Errorf (''could not parse '' @ filename @ '': '' @ err)))
         | Inr af \<Rightarrow> (Some \<lparr>file = af, emailLookup = cmd\<rparr>, None)))
   \<and> pairsKey_ReplaceAll contents repl = spec_rewrite contents repl"
proof (intro conjI impI)
  show spec: "pairsKey_ReplaceAll contents repl = spec_rewrite contents repl" for contents repl
    by (simp add: pairsKey_ReplaceAll_def spec_rewrite_def pairsKey_ReplaceAll_from_spec)
  show "NewPairsFromFile h w filename cmd =
        (case yaml_Unmarshal h (spec_rewrite contents ''authors:'') of
           Inl err \<Rightarrow> (None, Some (Errorf (''could not parse '' @ filename @ '': '' @ err)))
         | Inr af \<Rightarrow> (Some \<lparr>file = af, emailLookup = cmd\<rparr>, None))"
    if "os_Open h w filename = Inr f \<and> ioutil_ReadAll h w f = Inr contents"
    using that by (simp add: NewPairsFromFile_def spec)
  show "NewPairsFromFile h w1 filename cmd = NewPairsFromFile h w2 filename cmd"
    if "os_Open h w1 filename = Inr f1 \<and> ioutil_ReadAll h w1 f1 = Inr (pre @ ''pairs:'' @ post)
      \<and> os_Open h w2 filename = Inr f2 \<and> ioutil_ReadAll h w2 f2 = Inr (pre @ ''authors:'' @ post)
      \<and> (pre = [] \<or> last pre = CHR 0x0A)"
  proof -
    from that have "pairsKey_ReplaceAll (pre @ ''pairs:'' @ post) ''authors:''
        = pairsKey_ReplaceAll (pre @ ''authors:'' @ post) ''authors:''"
      by (intro legacy_key_rewritten_alike) simp
    with that show ?thesis
      by (simp add: NewPairsFromFile_def)
  qed
qed

theorem legacy_key_pairs_loads_as_authors_witness:
  "NewPairsFromFile exampleHost ''pairs:\<newline>  CD: Cher\<newline>'' ''.git-authors'' []
     = NewPairsFromFile exampleHost ''authors:\<newline>  CD: Cher\<newline>'' ''.git-authors'' []
   \<and> NewPairsFromFile exampleHost ''pairs:\<newline>  CD: Cher\<newline>'' ''.git-authors'' []
     = (Some \<lparr>file = exampleFile\<lparr>Pairs := [''CD'' \<mapsto> ''Cher''], EmailAddresses := Map.empty\<rparr>,
               emailLookup = []\<rparr>, None)
   \<and> pairsKey_ReplaceAll ''# pairs:\<newline>  pairs: x\<newline>mypairs:\<newline>pairs:\<newline>  AB: pairs:'' ''authors:''
     = ''# pairs:\<newline>  pairs: x\<newline>mypairs:\<newline>authors:\<newline>  AB: pairs:''"
proof -
  have io: "os_Open exampleHost w ''.git-authors'' = Inr ()"
    "ioutil_ReadAll exampleHost w () = Inr w" for w
    by (simp_all add: exampleHost_def)
  have texts: "''pairs:\<newline>  CD: Cher\<newline>'' = [] @ ''pairs:'' @ ''\<newline>  CD: Cher\<newline>''"
    "''authors:\<newline>  CD: Cher\<newline>'' = [] @ ''authors:'' @ ''\<newline>  CD: Cher\<newline>''"
    by simp_all
  have rewritten: "spec_rewrite ''pairs:\<newline>  CD: Cher\<newline>'' ''authors:'' = ''authors:\<newline>  CD: Cher\<newline>''"
    "spec_rewrite ''# pairs:\<newline>  pairs: x\<newline>mypairs:\<newline>pairs:\<newline>  AB: pairs:'' ''authors:''
      = ''# pairs:\<newline>  pairs: x\<newline>mypairs:\<newline>authors:\<newline>  AB: pairs:''"
    by (simp_all add: spec_rewrite_def lines_of.simps rewriteLine_def)
  have yaml: "yaml_Unmarshal exampleHost ''authors:\<newline>  CD: Cher\<newline>''
      = Inr (exampleFile\<lparr>Pairs := [''CD'' \<mapsto> ''Cher''], EmailAddresses := Map.empty\<rparr>)"
    by (simp add: exampleHost_def)
  note loads = legacy_key_pairs_loads_as_authors
      [where h = exampleHost and ?w1.0 = "''pairs:\<newline>  CD: Cher\<newline>''"
        and ?w2.0 = "''authors:\<newline>  CD: Cher\<newline>''" and filename = "''.git-authors''"
        and ?f1.0 = "()" and ?f2.0 = "()" and pre = "[]" and post = "''\<newline>  CD: Cher\<newline>''"
        and cmd = "[]" and w = "''pairs:\<newline>  CD: Cher\<newline>''" and f = "()"
        and contents = "''pairs:\<newline>  CD: Cher\<newline>''"
        and repl = "''authors:''"]
  note anchored = legacy_key_pairs_loads_as_authors
      [where h = exampleHost and ?w1.0 = "[]" and ?w2.0 = "[]" and filename = "[]"
        and ?f1.0 = "()" and ?f2.0 = "()" and pre = "[]" and post = "[]"
        and cmd = "[]" and w = "[]" and f = "()"
        and contents = "''# pairs:\<newline>  pairs: x\<newline>mypairs:\<newline>pairs:\<newline>  AB: pairs:''"
        and repl = "''authors:''"]
  from loads [THEN conjunct1] io
  have "NewPairsFromFile exampleHost ''pairs:\<newline>  CD: Cher\<newline>'' ''.git-authors'' []
       = NewPairsFromFile exampleHost ''authors:\<newline>  CD: Cher\<newline>'' ''.git-authors'' []"
    by simp
  moreover from loads [THEN conjunct2, THEN conjunct1] io yaml
  have "NewPairsFromFile exampleHost ''pairs:\<newline>  CD: Cher\<newline>'' ''.git-authors'' []
       = (Some \<lparr>file = exampleFile\<lparr>Pairs := [''CD'' \<mapsto> ''Cher''], EmailAddresses := Map.empty\<rparr>,
                 emailLookup = []\<rparr>, None)"
    unfolding rewritten by simp
  moreover from anchored [THEN conjunct2, THEN conjunct2]
  have "pairsKey_ReplaceAll ''# pairs:\<newline>  pairs: x\<newline>mypairs:\<newline>pairs:\<newline>  AB: pairs:'' ''authors:''
       = ''# pairs:\<newline>  pairs: x\<newline>mypairs:\<newline>authors:\<newline>  AB: pairs:''"
    unfolding rewritten .
  ultimately show ?thesis
    by (intro conjI)
qed

end
